theory Spec2Isabelle
  imports Complex_Main
begin

section \<open>Values, candidates and errors\<close>

text \<open>
  The module \<^verbatim>\<open>profit_calc/specifications.py\<close> evaluates specification objects against a
  candidate, a Python mapping indexed with string keys. The Python values a candidate field can
  hold are: a \<^verbatim>\<open>str\<close> (its UTF-8 bytes), a finite \<^verbatim>\<open>decimal.Decimal\<close> (its numeric value, which is
  all that division and comparison depend on), an \<^verbatim>\<open>int\<close>, and \<^verbatim>\<open>None\<close>. Non-finite decimals
  and binary floats are not represented.
\<close>

type_synonym decimal = rat

datatype pyvalue = PyStr string | PyDecimal decimal | PyInt int | PyNone

type_synonym candidate = "string \<rightharpoonup> pyvalue"

text \<open>The exceptions that the module, the library calls it makes and the interpreter can
  raise.\<close>

datatype error =
    KeyError string
  | AttributeError
  | TypeError
  | InvalidOperation
  | DivisionByZero
  | Overflow
  | ParserError
  | NotImplementedError
  | RecursionError

text \<open>\<^verbatim>\<open>candidate[key]\<close>: a missing key raises \<^verbatim>\<open>KeyError(key)\<close>.\<close>

definition getitem :: "candidate \<Rightarrow> string \<Rightarrow> error + pyvalue" where
  "getitem candidate key = (case candidate key of None \<Rightarrow> Inl (KeyError key) | Some v \<Rightarrow> Inr v)"

section \<open>The library calls\<close>

text \<open>
  The module calls into the Python standard library and into \<^verbatim>\<open>pendulum\<close>. These calls are
  parameters of the model, collected in one record; \<open>'t\<close> is the type of pendulum's date-times.
  \<^item> \<open>str_lower\<close> is \<^verbatim>\<open>str.lower()\<close>;
  \<^item> \<open>Decimal_of_str\<close> is \<^verbatim>\<open>Decimal(s)\<close> on a string, \<open>None\<close> standing for
    \<^verbatim>\<open>decimal.InvalidOperation\<close>;
  \<^item> \<open>Decimal_truediv\<close> is \<^verbatim>\<open>a / b\<close> on decimals in the active context, which rounds and
    which raises on a zero divisor;
  \<^item> \<open>pendulum_parse\<close> is \<^verbatim>\<open>pendulum.parse(s)\<close> on a string, \<open>None\<close> standing for
    pendulum's \<^verbatim>\<open>ParserError\<close>;
  \<^item> \<open>diff_in_years a b\<close> is \<^verbatim>\<open>a.diff(b).in_years()\<close> and \<open>diff_in_days a b\<close> is
    \<^verbatim>\<open>a.diff(b).in_days()\<close>.
\<close>

record 't library =
  str_lower :: "string \<Rightarrow> string"
  Decimal_of_str :: "string \<Rightarrow> decimal option"
  Decimal_truediv :: "decimal \<Rightarrow> decimal \<Rightarrow> error + decimal"
  pendulum_parse :: "string \<Rightarrow> 't option"
  diff_in_years :: "'t \<Rightarrow> 't \<Rightarrow> int"
  diff_in_days :: "'t \<Rightarrow> 't \<Rightarrow> int"

text \<open>\<^verbatim>\<open>value.lower()\<close>: only a \<^verbatim>\<open>str\<close> has the method.\<close>

fun lower :: "'t library \<Rightarrow> pyvalue \<Rightarrow> error + string" where
  "lower L (PyStr s) = Inr (str_lower L s)"
| "lower L v = Inl AttributeError"

text \<open>\<^verbatim>\<open>Decimal(value)\<close> on a value that is not yet a \<^verbatim>\<open>Decimal\<close>.\<close>

fun Decimal :: "'t library \<Rightarrow> pyvalue \<Rightarrow> error + decimal" where
  "Decimal L (PyStr s) =
     (case Decimal_of_str L s of None \<Rightarrow> Inl InvalidOperation | Some d \<Rightarrow> Inr d)"
| "Decimal L (PyDecimal d) = Inr d"
| "Decimal L (PyInt i) = Inr (of_int i)"
| "Decimal L PyNone = Inl TypeError"

text \<open>\<^verbatim>\<open>pendulum.parse(value)\<close>: a value that is not a string is a \<^verbatim>\<open>TypeError\<close>.\<close>

fun parse :: "'t library \<Rightarrow> pyvalue \<Rightarrow> error + 't" where
  "parse L (PyStr s) = (case pendulum_parse L s of None \<Rightarrow> Inl ParserError | Some t \<Rightarrow> Inr t)"
| "parse L v = Inl TypeError"

text \<open>Python's truth value of an object, as \<^verbatim>\<open>if base:\<close> and \<^verbatim>\<open>if current_time\<close> test it.\<close>

fun truthy :: "pyvalue \<Rightarrow> bool" where
  "truthy (PyStr s) = (s \<noteq> [])"
| "truthy (PyDecimal d) = (d \<noteq> 0)"
| "truthy (PyInt i) = (i \<noteq> 0)"
| "truthy PyNone = False"

section \<open>Specifications\<close>

text \<open>
  One constructor per concrete class. The arguments are the instance attributes:
  \<^verbatim>\<open>specifications\<close> for \<^verbatim>\<open>And\<close> and \<^verbatim>\<open>Or\<close>, \<^verbatim>\<open>specification\<close> for \<^verbatim>\<open>Invert\<close>, \<^verbatim>\<open>left\<close> and
  \<^verbatim>\<open>right\<close> for \<^verbatim>\<open>Xor\<close>, \<^verbatim>\<open>_threshold\<close> and \<^verbatim>\<open>BASE_SALARY\<close> for the salary classes
  (\<^verbatim>\<open>_first\<close>, \<^verbatim>\<open>_second\<close> and \<^verbatim>\<open>BASE_SALARY\<close> for \<^verbatim>\<open>SalaryBetween\<close>), \<^verbatim>\<open>_threshold\<close> and
  \<^verbatim>\<open>_frozen\<close> for the admission classes (\<^verbatim>\<open>_initial_threshold\<close>, \<^verbatim>\<open>_end_threshold\<close> and
  \<^verbatim>\<open>_frozen\<close> for \<^verbatim>\<open>AdmissionTimeInYearsBetween\<close>). \<open>Specification\<close> is an instance of the
  base class itself.
\<close>

datatype 't spec =
    Specification
  | And "'t spec list"
  | Or "'t spec list"
  | Invert "'t spec"
  | Xor "'t spec" "'t spec"
  | TrueSpecification
  | FalseSpecification
  | DirectorBoard
  | Trainee
  | AccountingDepartment
  | FinancialDepartment
  | ITDepartment
  | FacilitiesDepartment
  | CustomerExperienceDepartment
  | SalaryGreaterThan int decimal
  | SalaryLessThan int decimal
  | SalaryBetween int int decimal
  | AdmissionTimeInYearsLessThan int 't
  | AdmissionTimeInYearsGreaterThan int 't
  | AdmissionTimeInYearsBetween int int 't

text \<open>The class tests \<^verbatim>\<open>isinstance(x, And)\<close> and \<^verbatim>\<open>isinstance(x, Or)\<close>.\<close>

definition isinstance_And :: "'t spec \<Rightarrow> bool" where
  "isinstance_And s = (case s of And _ \<Rightarrow> True | _ \<Rightarrow> False)"

definition isinstance_Or :: "'t spec \<Rightarrow> bool" where
  "isinstance_Or s = (case s of Or _ \<Rightarrow> True | _ \<Rightarrow> False)"

subsection \<open>Construction\<close>

text \<open>
  The composition operators. \<^verbatim>\<open>Specification.__and__\<close> wraps both operands in a new \<^verbatim>\<open>And\<close>;
  \<^verbatim>\<open>And.__and__\<close> overrides it, extends \<^verbatim>\<open>self.specifications\<close> and returns \<^verbatim>\<open>self\<close>. The
  outer \<open>case\<close> is the method dispatch on the class of \<^verbatim>\<open>self\<close>, the inner one the
  \<^verbatim>\<open>isinstance\<close> test. The functions below give the value of the returned node from the values the operands have when
  the operator is called; the objects themselves, and the update of the left operand, are the
  subject of the section on objects and identity.
\<close>

definition dunder_and :: "'t spec \<Rightarrow> 't spec \<Rightarrow> 't spec" where
  "dunder_and self other =
     (case self of
        And specifications \<Rightarrow>
          (case other of
             And other_specifications \<Rightarrow> And (specifications @ other_specifications)
           | _ \<Rightarrow> And (specifications @ [other]))
      | _ \<Rightarrow> And [self, other])"

definition dunder_or :: "'t spec \<Rightarrow> 't spec \<Rightarrow> 't spec" where
  "dunder_or self other =
     (case self of
        Or specifications \<Rightarrow>
          (case other of
             Or other_specifications \<Rightarrow> Or (specifications @ other_specifications)
           | _ \<Rightarrow> Or (specifications @ [other]))
      | _ \<Rightarrow> Or [self, other])"

definition dunder_xor :: "'t spec \<Rightarrow> 't spec \<Rightarrow> 't spec" where
  "dunder_xor self other = Xor self other"

definition dunder_invert :: "'t spec \<Rightarrow> 't spec" where
  "dunder_invert self = Invert self"

text \<open>\<^verbatim>\<open>BaseSalaryCalculatorMixin\<close>: the class attribute and what \<^verbatim>\<open>__init__\<close> leaves in
  \<^verbatim>\<open>self.BASE_SALARY\<close> for the argument \<^verbatim>\<open>base\<close> (\<open>None\<close> when it is not passed).\<close>

definition BASE_SALARY :: decimal where
  "BASE_SALARY = 1045"

fun base_salary_init :: "'t library \<Rightarrow> pyvalue option \<Rightarrow> error + decimal" where
  "base_salary_init L None = Inr BASE_SALARY"
| "base_salary_init L (Some base) =
     (if truthy base then
        (case base of PyDecimal d \<Rightarrow> Inr d | _ \<Rightarrow> Decimal L base)
      else Inr BASE_SALARY)"

definition SalaryGreaterThan_init ::
  "'t library \<Rightarrow> int \<Rightarrow> pyvalue option \<Rightarrow> error + 't spec" where
  "SalaryGreaterThan_init L threshold base =
     (case base_salary_init L base of Inl e \<Rightarrow> Inl e
      | Inr b \<Rightarrow> Inr (SalaryGreaterThan threshold b))"

definition SalaryLessThan_init ::
  "'t library \<Rightarrow> int \<Rightarrow> pyvalue option \<Rightarrow> error + 't spec" where
  "SalaryLessThan_init L threshold base =
     (case base_salary_init L base of Inl e \<Rightarrow> Inl e
      | Inr b \<Rightarrow> Inr (SalaryLessThan threshold b))"

definition SalaryBetween_init ::
  "'t library \<Rightarrow> int \<Rightarrow> int \<Rightarrow> pyvalue option \<Rightarrow> error + 't spec" where
  "SalaryBetween_init L first second base =
     (case base_salary_init L base of Inl e \<Rightarrow> Inl e
      | Inr b \<Rightarrow> Inr (SalaryBetween first second b))"

text \<open>The admission classes freeze the reference time in \<^verbatim>\<open>__init__\<close>:
  \<^verbatim>\<open>pendulum.parse(current_time) if current_time else pendulum.now()\<close>. The clock reading
  \<open>now\<close> is an argument.\<close>

fun frozen_init :: "'t library \<Rightarrow> pyvalue option \<Rightarrow> 't \<Rightarrow> error + 't" where
  "frozen_init L None now = Inr now"
| "frozen_init L (Some current_time) now =
     (if truthy current_time then parse L current_time else Inr now)"

definition BASE_DAYS_ON_YEAR :: int where
  "BASE_DAYS_ON_YEAR = 365"

definition AdmissionTimeInYearsLessThan_init ::
  "'t library \<Rightarrow> int \<Rightarrow> pyvalue option \<Rightarrow> 't \<Rightarrow> error + 't spec" where
  "AdmissionTimeInYearsLessThan_init L threshold current_time now =
     (case frozen_init L current_time now of Inl e \<Rightarrow> Inl e
      | Inr frozen \<Rightarrow> Inr (AdmissionTimeInYearsLessThan threshold frozen))"

definition AdmissionTimeInYearsGreaterThan_init ::
  "'t library \<Rightarrow> int \<Rightarrow> pyvalue option \<Rightarrow> 't \<Rightarrow> error + 't spec" where
  "AdmissionTimeInYearsGreaterThan_init L threshold current_time now =
     (case frozen_init L current_time now of Inl e \<Rightarrow> Inl e
      | Inr frozen \<Rightarrow> Inr (AdmissionTimeInYearsGreaterThan threshold frozen))"

definition AdmissionTimeInYearsBetween_init ::
  "'t library \<Rightarrow> int \<Rightarrow> int \<Rightarrow> pyvalue option \<Rightarrow> 't \<Rightarrow> error + 't spec" where
  "AdmissionTimeInYearsBetween_init L initial final current_time now =
     (case frozen_init L current_time now of Inl e \<Rightarrow> Inl e
      | Inr frozen \<Rightarrow>
          Inr (AdmissionTimeInYearsBetween (initial * BASE_DAYS_ON_YEAR)
                 (final * BASE_DAYS_ON_YEAR) frozen))"

subsection \<open>Evaluation\<close>

text \<open>A list comprehension evaluates its elements from left to right, and the first exception
  ends it.\<close>

fun collect :: "(error + 'a) list \<Rightarrow> error + 'a list" where
  "collect [] = Inr []"
| "collect (r # rs) =
     (case r of Inl e \<Rightarrow> Inl e
      | Inr x \<Rightarrow> (case collect rs of Inl e \<Rightarrow> Inl e | Inr xs \<Rightarrow> Inr (x # xs)))"

text \<open>\<^verbatim>\<open>BaseSalaryCalculatorMixin.sanitize\<close> and \<^verbatim>\<open>calculate\<close>.\<close>

fun sanitize :: "'t library \<Rightarrow> pyvalue \<Rightarrow> error + decimal" where
  "sanitize L (PyDecimal d) = Inr d"
| "sanitize L raw_salary = Decimal L raw_salary"

definition calculate :: "'t library \<Rightarrow> decimal \<Rightarrow> decimal \<Rightarrow> error + decimal" where
  "calculate L base raw_salary = Decimal_truediv L raw_salary base"

text \<open>The salary ratio of a candidate, as the three salary classes compute it.\<close>

definition salaries :: "'t library \<Rightarrow> decimal \<Rightarrow> candidate \<Rightarrow> error + decimal" where
  "salaries L base candidate =
     (case getitem candidate ''salario_bruto'' of Inl e \<Rightarrow> Inl e
      | Inr raw \<Rightarrow> (case sanitize L raw of Inl e \<Rightarrow> Inl e | Inr d \<Rightarrow> calculate L base d))"

text \<open>The comparison of \<^verbatim>\<open>candidate["area"].lower()\<close> (or \<^verbatim>\<open>"cargo"\<close>) with a fixed name.\<close>

definition lower_equals :: "'t library \<Rightarrow> candidate \<Rightarrow> string \<Rightarrow> string \<Rightarrow> error + bool" where
  "lower_equals L candidate key name =
     (case getitem candidate key of Inl e \<Rightarrow> Inl e
      | Inr v \<Rightarrow> (case lower L v of Inl e \<Rightarrow> Inl e | Inr s \<Rightarrow> Inr (s = name)))"

text \<open>\<^verbatim>\<open>pendulum.parse(candidate["data_de_admissao"])\<close>.\<close>

definition admission :: "'t library \<Rightarrow> candidate \<Rightarrow> error + 't" where
  "admission L candidate =
     (case getitem candidate ''data_de_admissao'' of Inl e \<Rightarrow> Inl e | Inr v \<Rightarrow> parse L v)"

text \<open>\<^verbatim>\<open>is_satisfied_by\<close>, one equation per class. \<^verbatim>\<open>And\<close> and \<^verbatim>\<open>Or\<close> build the whole list of
  child results before \<^verbatim>\<open>all\<close> and \<^verbatim>\<open>any\<close> read it; \<^verbatim>\<open>Xor\<close> evaluates left, then right.\<close>

fun is_satisfied_by :: "'t library \<Rightarrow> 't spec \<Rightarrow> candidate \<Rightarrow> error + bool" where
  "is_satisfied_by L Specification candidate = Inl NotImplementedError"
| "is_satisfied_by L (And specifications) candidate =
     (case collect (map (\<lambda>specification. is_satisfied_by L specification candidate)
                    specifications) of
        Inl e \<Rightarrow> Inl e
      | Inr bs \<Rightarrow> Inr (list_all (\<lambda>b. b) bs))"
| "is_satisfied_by L (Or specifications) candidate =
     (case collect (map (\<lambda>specification. is_satisfied_by L specification candidate)
                    specifications) of
        Inl e \<Rightarrow> Inl e
      | Inr bs \<Rightarrow> Inr (list_ex (\<lambda>b. b) bs))"
| "is_satisfied_by L (Invert specification) candidate =
     (case is_satisfied_by L specification candidate of Inl e \<Rightarrow> Inl e | Inr b \<Rightarrow> Inr (\<not> b))"
| "is_satisfied_by L (Xor left right) candidate =
     (case is_satisfied_by L left candidate of Inl e \<Rightarrow> Inl e
      | Inr l \<Rightarrow>
          (case is_satisfied_by L right candidate of Inl e \<Rightarrow> Inl e
           | Inr r \<Rightarrow> Inr (l \<noteq> r)))"
| "is_satisfied_by L TrueSpecification candidate = Inr True"
| "is_satisfied_by L FalseSpecification candidate = Inr False"
| "is_satisfied_by L DirectorBoard candidate = lower_equals L candidate ''area'' ''diretoria''"
| "is_satisfied_by L Trainee candidate = lower_equals L candidate ''cargo'' ''estagiario''"
| "is_satisfied_by L AccountingDepartment candidate =
     lower_equals L candidate ''area'' ''contabilidade''"
| "is_satisfied_by L FinancialDepartment candidate =
     lower_equals L candidate ''area'' ''financeiro''"
| "is_satisfied_by L ITDepartment candidate = lower_equals L candidate ''area'' ''tecnologia''"
| "is_satisfied_by L FacilitiesDepartment candidate =
     lower_equals L candidate ''area'' (''servi'' @ [CHR 0xC3, CHR 0xA7] @ ''os gerais'')"
| "is_satisfied_by L CustomerExperienceDepartment candidate =
     lower_equals L candidate ''area'' ''relacionamento com o cliente''"
| "is_satisfied_by L (SalaryGreaterThan threshold base) candidate =
     (case salaries L base candidate of Inl e \<Rightarrow> Inl e
      | Inr ratio \<Rightarrow> Inr (ratio > of_int threshold))"
| "is_satisfied_by L (SalaryLessThan threshold base) candidate =
     (case salaries L base candidate of Inl e \<Rightarrow> Inl e
      | Inr ratio \<Rightarrow> Inr (ratio < of_int threshold))"
| "is_satisfied_by L (SalaryBetween first second base) candidate =
     (case salaries L base candidate of Inl e \<Rightarrow> Inl e
      | Inr ratio \<Rightarrow> Inr (of_int first \<le> ratio \<and> ratio \<le> of_int second))"
| "is_satisfied_by L (AdmissionTimeInYearsLessThan threshold frozen) candidate =
     (case admission L candidate of Inl e \<Rightarrow> Inl e
      | Inr a \<Rightarrow> Inr (diff_in_years L a frozen < threshold))"
| "is_satisfied_by L (AdmissionTimeInYearsGreaterThan threshold frozen) candidate =
     (case admission L candidate of Inl e \<Rightarrow> Inl e
      | Inr a \<Rightarrow> Inr (diff_in_years L a frozen \<ge> threshold))"
| "is_satisfied_by L (AdmissionTimeInYearsBetween initial_threshold end_threshold frozen)
       candidate =
     (case admission L candidate of Inl e \<Rightarrow> Inl e
      | Inr a \<Rightarrow>
          Inr (initial_threshold < diff_in_days L a frozen
               \<and> diff_in_days L a frozen < end_threshold))"

text \<open>The list comprehension of \<^verbatim>\<open>And.remainder_unsatisfied_by\<close>: the children that are not
  satisfied, in order.\<close>

fun non_satisfied ::
  "'t library \<Rightarrow> 't spec list \<Rightarrow> candidate \<Rightarrow> error + 't spec list" where
  "non_satisfied L [] candidate = Inr []"
| "non_satisfied L (specification # rest) candidate =
     (case is_satisfied_by L specification candidate of Inl e \<Rightarrow> Inl e
      | Inr b \<Rightarrow>
          (case non_satisfied L rest candidate of Inl e \<Rightarrow> Inl e
           | Inr ns \<Rightarrow> Inr (if \<not> b then specification # ns else ns)))"

text \<open>\<^verbatim>\<open>remainder_unsatisfied_by\<close>: the override of \<^verbatim>\<open>And\<close>, and the method of the base class
  for every other class. \<open>None\<close> is Python's \<^verbatim>\<open>None\<close>.\<close>

fun remainder_unsatisfied_by ::
  "'t library \<Rightarrow> 't spec \<Rightarrow> candidate \<Rightarrow> error + 't spec option" where
  "remainder_unsatisfied_by L (And specifications) candidate =
     (case non_satisfied L specifications candidate of Inl e \<Rightarrow> Inl e
      | Inr ns \<Rightarrow>
          (if ns = [] then Inr None
           else if length ns = 1 then Inr (Some (ns ! 0))
           else if length ns = length specifications then Inr (Some (And specifications))
           else Inr (Some (And ns))))"
| "remainder_unsatisfied_by L self candidate =
     (case is_satisfied_by L self candidate of Inl e \<Rightarrow> Inl e
      | Inr b \<Rightarrow> (if b then Inr None else Inr (Some self)))"

section \<open>Objects and identity\<close>

text \<open>
  \<^verbatim>\<open>And.__and__\<close> and \<^verbatim>\<open>Or.__or__\<close> assign to \<^verbatim>\<open>self.specifications\<close> and return \<^verbatim>\<open>self\<close>: the
  node they return is the left operand, and every holder of a reference to it sees the longer
  child list. To state this, objects live in a store, a list indexed by references; an object
  of a composite class holds the references of its children, an object of any other class is
  given by its value.
\<close>

type_synonym ref = nat

datatype 't object =
    AndObject "ref list"
  | OrObject "ref list"
  | InvertObject ref
  | XorObject ref ref
  | PlainObject "'t spec"

type_synonym 't store = "'t object list"

text \<open>
  The class tests on objects.
\<close>

definition is_AndObject :: "'t object \<Rightarrow> bool" where
  "is_AndObject obj = (case obj of AndObject _ \<Rightarrow> True | _ \<Rightarrow> False)"

definition is_OrObject :: "'t object \<Rightarrow> bool" where
  "is_OrObject obj = (case obj of OrObject _ \<Rightarrow> True | _ \<Rightarrow> False)"

text \<open>
  The operators on the store. \<^verbatim>\<open>Specification.__and__\<close> allocates a new object;
  \<^verbatim>\<open>And.__and__\<close> updates the object at \<^verbatim>\<open>self\<close> (\<^verbatim>\<open>+=\<close> on a tuple attribute rebinds the
  attribute to the concatenation) and allocates nothing. \<^verbatim>\<open>__xor__\<close> and \<^verbatim>\<open>__invert__\<close> always
  allocate.
\<close>

definition store_and :: "'t store \<Rightarrow> ref \<Rightarrow> ref \<Rightarrow> 't store \<times> ref" where
  "store_and store self other =
     (case store ! self of
        AndObject specifications \<Rightarrow>
          (case store ! other of
             AndObject other_specifications \<Rightarrow>
               (store[self := AndObject (specifications @ other_specifications)], self)
           | _ \<Rightarrow> (store[self := AndObject (specifications @ [other])], self))
      | _ \<Rightarrow> (store @ [AndObject [self, other]], length store))"

definition store_or :: "'t store \<Rightarrow> ref \<Rightarrow> ref \<Rightarrow> 't store \<times> ref" where
  "store_or store self other =
     (case store ! self of
        OrObject specifications \<Rightarrow>
          (case store ! other of
             OrObject other_specifications \<Rightarrow>
               (store[self := OrObject (specifications @ other_specifications)], self)
           | _ \<Rightarrow> (store[self := OrObject (specifications @ [other])], self))
      | _ \<Rightarrow> (store @ [OrObject [self, other]], length store))"

definition store_xor :: "'t store \<Rightarrow> ref \<Rightarrow> ref \<Rightarrow> 't store \<times> ref" where
  "store_xor store self other = (store @ [XorObject self other], length store)"

definition store_invert :: "'t store \<Rightarrow> ref \<Rightarrow> 't store \<times> ref" where
  "store_invert store self = (store @ [InvertObject self], length store)"

text \<open>
  \<^verbatim>\<open>is_satisfied_by\<close> on an object. Each method call nests one call deeper, and Python raises
  \<^verbatim>\<open>RecursionError\<close> when the nesting passes its limit; \<open>depth\<close> is the nesting still allowed.
  An object of a class without children is evaluated by the function of the previous section.
\<close>

fun store_is_satisfied_by ::
  "nat \<Rightarrow> 't library \<Rightarrow> 't store \<Rightarrow> ref \<Rightarrow> candidate \<Rightarrow> error + bool" where
  "store_is_satisfied_by 0 L store self candidate = Inl RecursionError"
| "store_is_satisfied_by (Suc depth) L store self candidate =
     (case store ! self of
        AndObject specifications \<Rightarrow>
          (case collect (map (\<lambda>specification.
                   store_is_satisfied_by depth L store specification candidate)
                 specifications) of
             Inl e \<Rightarrow> Inl e
           | Inr bs \<Rightarrow> Inr (list_all (\<lambda>b. b) bs))
      | OrObject specifications \<Rightarrow>
          (case collect (map (\<lambda>specification.
                   store_is_satisfied_by depth L store specification candidate)
                 specifications) of
             Inl e \<Rightarrow> Inl e
           | Inr bs \<Rightarrow> Inr (list_ex (\<lambda>b. b) bs))
      | InvertObject specification \<Rightarrow>
          (case store_is_satisfied_by depth L store specification candidate of
             Inl e \<Rightarrow> Inl e
           | Inr b \<Rightarrow> Inr (\<not> b))
      | XorObject left right \<Rightarrow>
          (case store_is_satisfied_by depth L store left candidate of
             Inl e \<Rightarrow> Inl e
           | Inr l \<Rightarrow>
               (case store_is_satisfied_by depth L store right candidate of
                  Inl e \<Rightarrow> Inl e
                | Inr r \<Rightarrow> Inr (l \<noteq> r)))
      | PlainObject v \<Rightarrow> is_satisfied_by L v candidate)"

text \<open>
  The value of an object: the tree it unfolds to. An object that refers to itself through
  its children unfolds to no tree. \<open>height\<close> is the nesting of calls that the evaluation of a
  tree needs.
\<close>

fun composite :: "'t spec \<Rightarrow> bool" where
  "composite (And specifications) = True"
| "composite (Or specifications) = True"
| "composite (Invert specification) = True"
| "composite (Xor left right) = True"
| "composite self = False"

inductive denotes :: "'t store \<Rightarrow> ref \<Rightarrow> 't spec \<Rightarrow> bool" where
  denotes_And:
    "r < length store \<Longrightarrow> store ! r = AndObject rs \<Longrightarrow> list_all2 (denotes store) rs vs \<Longrightarrow>
     denotes store r (And vs)"
| denotes_Or:
    "r < length store \<Longrightarrow> store ! r = OrObject rs \<Longrightarrow> list_all2 (denotes store) rs vs \<Longrightarrow>
     denotes store r (Or vs)"
| denotes_Invert:
    "r < length store \<Longrightarrow> store ! r = InvertObject x \<Longrightarrow> denotes store x v \<Longrightarrow>
     denotes store r (Invert v)"
| denotes_Xor:
    "r < length store \<Longrightarrow> store ! r = XorObject x y \<Longrightarrow> denotes store x v \<Longrightarrow>
     denotes store y w \<Longrightarrow> denotes store r (Xor v w)"
| denotes_Plain:
    "r < length store \<Longrightarrow> store ! r = PlainObject v \<Longrightarrow> \<not> composite v \<Longrightarrow> denotes store r v"

fun height :: "'t spec \<Rightarrow> nat" where
  "height (And specifications) = Suc (foldr max (map height specifications) 0)"
| "height (Or specifications) = Suc (foldr max (map height specifications) 0)"
| "height (Invert specification) = Suc (height specification)"
| "height (Xor left right) = Suc (max (height left) (height right))"
| "height self = 0"

text \<open>
  The references an object holds, and the objects an object contains: those it reaches
  through one reference or more.
\<close>

fun attributes :: "'t object \<Rightarrow> ref list" where
  "attributes (AndObject rs) = rs"
| "attributes (OrObject rs) = rs"
| "attributes (InvertObject x) = [x]"
| "attributes (XorObject x y) = [x, y]"
| "attributes (PlainObject v) = []"

definition refers :: "'t store \<Rightarrow> ref \<Rightarrow> ref \<Rightarrow> bool" where
  "refers store x y = (x < length store \<and> y \<in> set (attributes (store ! x)))"

definition contains :: "'t store \<Rightarrow> ref \<Rightarrow> ref \<Rightarrow> bool" where
  "contains store = (refers store)\<^sup>+\<^sup>+"

text \<open>
  A store is valid when every reference in it is to one of its objects. It has no nesting when
  no \<^verbatim>\<open>And\<close> object holds a reference to an \<^verbatim>\<open>And\<close> object and no \<^verbatim>\<open>Or\<close> object holds a
  reference to an \<^verbatim>\<open>Or\<close> object.
\<close>

definition valid_store :: "'t store \<Rightarrow> bool" where
  "valid_store store =
     list_all (\<lambda>obj. list_all (\<lambda>x. x < length store) (attributes obj)) store"

definition store_no_nesting :: "'t store \<Rightarrow> bool" where
  "store_no_nesting store =
     list_all (\<lambda>obj. list_all (\<lambda>x.
         \<not> (is_AndObject obj \<and> is_AndObject (store ! x))
         \<and> \<not> (is_OrObject obj \<and> is_OrObject (store ! x))) (attributes obj)) store"

section \<open>A calendar-date instance of the library\<close>

text \<open>
  To run the model on concrete candidates, the library record is instantiated at calendar
  dates. The instance follows the Python calls on the inputs it accepts and rejects the rest:
  \<open>ascii_lower\<close> is \<^verbatim>\<open>str.lower()\<close> on ASCII text, \<open>decimal_of_str\<close> reads an unsigned
  numeral with an optional fraction (\<^verbatim>\<open>"5225.00"\<close>), \<open>exact_truediv\<close> is the quotient
  without rounding (what \<^verbatim>\<open>Decimal\<close> division returns whenever the quotient fits the
  context precision) with Python's two zero-divisor exceptions, \<open>parse_date\<close> reads
  \<^verbatim>\<open>YYYY-MM-DD\<close>, and the two differences are pendulum's absolute period between two
  midnights.
\<close>

datatype date = Date (year: int) (month: int) (day: int)

definition ascii_lower :: "string \<Rightarrow> string" where
  "ascii_lower s =
     map (\<lambda>c. if 65 \<le> (of_char c :: nat) \<and> (of_char c :: nat) \<le> 90
               then char_of ((of_char c :: nat) + 32) else c) s"

definition digit_value :: "char \<Rightarrow> int option" where
  "digit_value c =
     (if 48 \<le> (of_char c :: nat) \<and> (of_char c :: nat) \<le> 57
      then Some (int (of_char c) - 48) else None)"

fun digits_value :: "int \<Rightarrow> string \<Rightarrow> int option" where
  "digits_value acc [] = Some acc"
| "digits_value acc (c # cs) =
     (case digit_value c of None \<Rightarrow> None | Some d \<Rightarrow> digits_value (10 * acc + d) cs)"

definition numeral_value :: "string \<Rightarrow> int option" where
  "numeral_value s = (if s = [] then None else digits_value 0 s)"

definition decimal_of_str :: "string \<Rightarrow> decimal option" where
  "decimal_of_str s =
     (let whole = takeWhile (\<lambda>c. c \<noteq> CHR ''.'') s;
          rest = dropWhile (\<lambda>c. c \<noteq> CHR ''.'') s
      in case numeral_value whole of
           None \<Rightarrow> None
         | Some w \<Rightarrow>
             (if rest = [] then Some (of_int w)
              else (case numeral_value (tl rest) of
                      None \<Rightarrow> None
                    | Some f \<Rightarrow> Some (of_int w + of_int f / 10 ^ length (tl rest)))))"

definition exact_truediv :: "decimal \<Rightarrow> decimal \<Rightarrow> error + decimal" where
  "exact_truediv a b =
     (if b = 0 then (if a = 0 then Inl InvalidOperation else Inl DivisionByZero)
      else Inr (a / b))"

definition is_leap :: "int \<Rightarrow> bool" where
  "is_leap y = (y mod 4 = 0 \<and> (y mod 100 \<noteq> 0 \<or> y mod 400 = 0))"

definition days_in_month :: "int \<Rightarrow> int \<Rightarrow> int" where
  "days_in_month y m =
     (if m = 2 then (if is_leap y then 29 else 28)
      else if m = 4 \<or> m = 6 \<or> m = 9 \<or> m = 11 then 30 else 31)"

definition parse_date :: "string \<Rightarrow> date option" where
  "parse_date s =
     (if length s = 10 \<and> s ! 4 = CHR ''-'' \<and> s ! 7 = CHR ''-'' then
        (case numeral_value (take 4 s) of
           None \<Rightarrow> None
         | Some y \<Rightarrow>
             (case numeral_value (take 2 (drop 5 s)) of
                None \<Rightarrow> None
              | Some m \<Rightarrow>
                  (case numeral_value (drop 8 s) of
                     None \<Rightarrow> None
                   | Some d \<Rightarrow>
                       (if 1 \<le> y \<and> 1 \<le> m \<and> m \<le> 12 \<and> 1 \<le> d \<and> d \<le> days_in_month y m
                        then Some (Date y m d) else None))))
      else None)"

text \<open>The number of days from 1970-01-01 to a date of the proleptic Gregorian calendar.\<close>

definition days_from_civil :: "date \<Rightarrow> int" where
  "days_from_civil dt =
     (let y = (if month dt \<le> 2 then year dt - 1 else year dt);
          era = y div 400;
          yoe = y - era * 400;
          doy = (153 * (month dt + (if month dt > 2 then - 3 else 9)) + 2) div 5 + day dt - 1;
          doe = yoe * 365 + yoe div 4 - yoe div 100 + doy
      in era * 146097 + doe - 719468)"

definition civil_in_days :: "date \<Rightarrow> date \<Rightarrow> int" where
  "civil_in_days a b = \<bar>days_from_civil b - days_from_civil a\<bar>"

text \<open>Whole calendar years between two dates: the year difference, less one when the later
  date falls earlier in its year than the earlier date does in its own.\<close>

definition years_between :: "date \<Rightarrow> date \<Rightarrow> int" where
  "years_between d1 d2 =
     year d2 - year d1
       - (if month d2 < month d1 \<or> (month d2 = month d1 \<and> day d2 < day d1) then 1 else 0)"

definition civil_in_years :: "date \<Rightarrow> date \<Rightarrow> int" where
  "civil_in_years a b =
     (if days_from_civil a \<le> days_from_civil b then years_between a b else years_between b a)"

definition civil_library :: "date library" where
  "civil_library =
     \<lparr> str_lower = ascii_lower,
       Decimal_of_str = decimal_of_str,
       Decimal_truediv = exact_truediv,
       pendulum_parse = parse_date,
       diff_in_years = civil_in_years,
       diff_in_days = civil_in_days \<rparr>"

text \<open>Three candidates: an analyst of the technology department, a trainee admitted one year
  before the reference date 2024-01-01 whose salary is still a string, and a record without
  department and role whose salary and admission date cannot be read.\<close>

definition employee :: candidate where
  "employee =
     map_of [(''area'', PyStr ''Tecnologia''), (''cargo'', PyStr ''Analista''),
             (''salario_bruto'', PyDecimal 5225), (''data_de_admissao'', PyStr ''2019-01-01'')]"

definition newcomer :: candidate where
  "newcomer =
     map_of [(''area'', PyStr ''Financeiro''), (''cargo'', PyStr ''Estagiario''),
             (''salario_bruto'', PyStr ''1045.00''), (''data_de_admissao'', PyStr ''2023-01-01'')]"

definition malformed :: candidate where
  "malformed =
     map_of [(''salario_bruto'', PyStr ''abc''), (''data_de_admissao'', PyStr ''not a date'')]"

text \<open>
  Two stores: three leaves, and a conjunction of two leaves together with its negation, as
  \<^verbatim>\<open>x = ITDepartment() & Trainee()\<close> and \<^verbatim>\<open>~x\<close> leave them.
\<close>

definition leaves :: "date store" where
  "leaves = [PlainObject ITDepartment, PlainObject Trainee, PlainObject DirectorBoard]"

definition negation :: "date store" where
  "negation =
     [PlainObject ITDepartment, PlainObject Trainee, AndObject [0, 1], InvertObject 2]"

section \<open>Notions used in the statements\<close>

text \<open>The key that the \<^verbatim>\<open>is_satisfied_by\<close> of a leaf class looks up in the candidate; the
  composite classes and the base class look up none.\<close>

fun candidate_key :: "'t spec \<Rightarrow> string option" where
  "candidate_key DirectorBoard = Some ''area''"
| "candidate_key Trainee = Some ''cargo''"
| "candidate_key AccountingDepartment = Some ''area''"
| "candidate_key FinancialDepartment = Some ''area''"
| "candidate_key ITDepartment = Some ''area''"
| "candidate_key FacilitiesDepartment = Some ''area''"
| "candidate_key CustomerExperienceDepartment = Some ''area''"
| "candidate_key (SalaryGreaterThan threshold base) = Some ''salario_bruto''"
| "candidate_key (SalaryLessThan threshold base) = Some ''salario_bruto''"
| "candidate_key (SalaryBetween first second base) = Some ''salario_bruto''"
| "candidate_key (AdmissionTimeInYearsLessThan threshold frozen) = Some ''data_de_admissao''"
| "candidate_key (AdmissionTimeInYearsGreaterThan threshold frozen) = Some ''data_de_admissao''"
| "candidate_key (AdmissionTimeInYearsBetween initial_threshold end_threshold frozen) =
     Some ''data_de_admissao''"
| "candidate_key self = None"

section \<open>Auxiliary facts\<close>

subsection \<open>Comprehensions\<close>

lemma collect_append:
  "collect (rs @ ss) =
     (case collect rs of Inl e \<Rightarrow> Inl e
      | Inr xs \<Rightarrow> (case collect ss of Inl e \<Rightarrow> Inl e | Inr ys \<Rightarrow> Inr (xs @ ys)))"
  by (induction rs) (auto split: sum.splits)

lemma collect_all_evaluate:
  assumes "\<forall>s \<in> set specs. \<exists>b. f s = Inr b"
  shows "collect (map f specs) = Inr (map (\<lambda>s. f s = Inr True) specs)"
  using assms
proof (induction specs)
  case Nil
  then show ?case by simp
next
  case (Cons s specs)
  then obtain b where "f s = Inr b" by auto
  with Cons show ?case by simp
qed

lemma collect_Inr_evaluate:
  "collect (map f specs) = Inr bs \<Longrightarrow> \<forall>s \<in> set specs. \<exists>b. f s = Inr b"
  by (induction specs arbitrary: bs) (auto split: sum.splits)

subsection \<open>The operators, case by case\<close>

lemma isinstance_And_iff: "isinstance_And s \<longleftrightarrow> (\<exists>specs. s = And specs)"
  by (cases s) (simp_all add: isinstance_And_def)

lemma isinstance_Or_iff: "isinstance_Or s \<longleftrightarrow> (\<exists>specs. s = Or specs)"
  by (cases s) (simp_all add: isinstance_Or_def)

lemma dunder_and_And_And: "dunder_and (And ls) (And rs) = And (ls @ rs)"
  by (simp add: dunder_and_def)

lemma dunder_and_And_other: "\<not> isinstance_And r \<Longrightarrow> dunder_and (And ls) r = And (ls @ [r])"
  by (cases r) (simp_all add: dunder_and_def isinstance_And_def)

lemma dunder_and_other: "\<not> isinstance_And l \<Longrightarrow> dunder_and l r = And [l, r]"
  by (cases l) (simp_all add: dunder_and_def isinstance_And_def)

lemma dunder_or_Or_Or: "dunder_or (Or ls) (Or rs) = Or (ls @ rs)"
  by (simp add: dunder_or_def)

lemma dunder_or_Or_other: "\<not> isinstance_Or r \<Longrightarrow> dunder_or (Or ls) r = Or (ls @ [r])"
  by (cases r) (simp_all add: dunder_or_def isinstance_Or_def)

lemma dunder_or_other: "\<not> isinstance_Or l \<Longrightarrow> dunder_or l r = Or [l, r]"
  by (cases l) (simp_all add: dunder_or_def isinstance_Or_def)

text \<open>
  Evaluating the result of \<^verbatim>\<open>&\<close> or \<^verbatim>\<open>|\<close> evaluates the left operand, then the right one; the
  first exception ends the evaluation.
\<close>

lemma is_satisfied_by_dunder_and:
  "is_satisfied_by L (dunder_and a b) c =
     (case is_satisfied_by L a c of Inl e \<Rightarrow> Inl e
      | Inr x \<Rightarrow> (case is_satisfied_by L b c of Inl e \<Rightarrow> Inl e | Inr y \<Rightarrow> Inr (x \<and> y)))"
proof (cases "isinstance_And a")
  case True
  then obtain ls where a: "a = And ls" by (auto simp: isinstance_And_iff)
  show ?thesis
  proof (cases "isinstance_And b")
    case True
    then obtain rs where b: "b = And rs" by (auto simp: isinstance_And_iff)
    show ?thesis
      by (simp add: a b dunder_and_And_And collect_append split: sum.splits)
  next
    case False
    then show ?thesis
      by (simp add: a dunder_and_And_other collect_append split: sum.splits)
  qed
next
  case False
  then show ?thesis
    by (simp add: dunder_and_other split: sum.splits)
qed

lemma is_satisfied_by_dunder_or:
  "is_satisfied_by L (dunder_or a b) c =
     (case is_satisfied_by L a c of Inl e \<Rightarrow> Inl e
      | Inr x \<Rightarrow> (case is_satisfied_by L b c of Inl e \<Rightarrow> Inl e | Inr y \<Rightarrow> Inr (x \<or> y)))"
proof (cases "isinstance_Or a")
  case True
  then obtain ls where a: "a = Or ls" by (auto simp: isinstance_Or_iff)
  show ?thesis
  proof (cases "isinstance_Or b")
    case True
    then obtain rs where b: "b = Or rs" by (auto simp: isinstance_Or_iff)
    show ?thesis
      by (simp add: a b dunder_or_Or_Or collect_append split: sum.splits)
  next
    case False
    then show ?thesis
      by (simp add: a dunder_or_Or_other collect_append split: sum.splits)
  qed
next
  case False
  then show ?thesis
    by (simp add: dunder_or_other split: sum.splits)
qed

subsection \<open>Conjunctions and their remainder\<close>

lemma And_all_evaluate:
  assumes "\<forall>s \<in> set specs. \<exists>b. is_satisfied_by L s c = Inr b"
  shows "is_satisfied_by L (And specs) c = Inr (\<forall>s \<in> set specs. is_satisfied_by L s c = Inr True)"
  by (simp add: collect_all_evaluate [OF assms] list_all_iff)

lemma And_Inr_evaluate:
  "is_satisfied_by L (And specs) c = Inr b \<Longrightarrow> \<forall>s \<in> set specs. \<exists>b. is_satisfied_by L s c = Inr b"
  by (auto split: sum.splits dest: collect_Inr_evaluate)

lemma And_True_iff:
  "is_satisfied_by L (And specs) c = Inr True \<longleftrightarrow>
     (\<forall>s \<in> set specs. is_satisfied_by L s c = Inr True)"
proof
  assume t: "is_satisfied_by L (And specs) c = Inr True"
  have ev: "\<forall>s \<in> set specs. \<exists>b. is_satisfied_by L s c = Inr b"
    using And_Inr_evaluate [OF t] .
  show "\<forall>s \<in> set specs. is_satisfied_by L s c = Inr True"
    using t And_all_evaluate [OF ev] by (simp del: is_satisfied_by.simps)
next
  assume a: "\<forall>s \<in> set specs. is_satisfied_by L s c = Inr True"
  then have ev: "\<forall>s \<in> set specs. \<exists>b. is_satisfied_by L s c = Inr b" by blast
  have "(\<forall>s \<in> set specs. is_satisfied_by L s c = Inr True) = True"
    using a by blast
  then show "is_satisfied_by L (And specs) c = Inr True"
    by (simp only: And_all_evaluate [OF ev])
qed

lemma non_satisfied_all_evaluate:
  assumes "\<forall>s \<in> set specs. \<exists>b. is_satisfied_by L s c = Inr b"
  shows "non_satisfied L specs c = Inr (filter (\<lambda>s. is_satisfied_by L s c = Inr False) specs)"
  using assms
proof (induction specs)
  case Nil
  then show ?case by simp
next
  case (Cons s specs)
  then obtain b where "is_satisfied_by L s c = Inr b" by auto
  with Cons show ?case by simp
qed

lemma non_satisfied_Inr_evaluate:
  "non_satisfied L specs c = Inr ns \<Longrightarrow> \<forall>s \<in> set specs. \<exists>b. is_satisfied_by L s c = Inr b"
  by (induction specs arbitrary: ns) (auto split: sum.splits)

lemma remainder_other:
  "\<not> isinstance_And s \<Longrightarrow>
   remainder_unsatisfied_by L s c =
     (case is_satisfied_by L s c of Inl e \<Rightarrow> Inl e
      | Inr b \<Rightarrow> (if b then Inr None else Inr (Some s)))"
  by (cases s) (auto simp add: isinstance_And_def)

lemma And_remainder_None_iff:
  "remainder_unsatisfied_by L (And specs) c = Inr None \<longleftrightarrow>
     is_satisfied_by L (And specs) c = Inr True"
proof
  assume r: "remainder_unsatisfied_by L (And specs) c = Inr None"
  then have n: "non_satisfied L specs c = Inr []"
    by (auto split: sum.splits if_splits)
  have ev: "\<forall>s \<in> set specs. \<exists>b. is_satisfied_by L s c = Inr b"
    using non_satisfied_Inr_evaluate [OF n] .
  have f: "filter (\<lambda>s. is_satisfied_by L s c = Inr False) specs = []"
    using n non_satisfied_all_evaluate [OF ev] by (metis sum.inject(2))
  have "\<forall>s \<in> set specs. is_satisfied_by L s c = Inr True"
  proof
    fix s assume s: "s \<in> set specs"
    then obtain b where b: "is_satisfied_by L s c = Inr b" using ev by blast
    have "is_satisfied_by L s c \<noteq> Inr False"
      using f s by (simp add: filter_empty_conv)
    with b show "is_satisfied_by L s c = Inr True" by (cases b) simp_all
  qed
  then show "is_satisfied_by L (And specs) c = Inr True"
    by (simp only: And_True_iff)
next
  assume t: "is_satisfied_by L (And specs) c = Inr True"
  then have a: "\<forall>s \<in> set specs. is_satisfied_by L s c = Inr True"
    by (simp only: And_True_iff)
  then have ev: "\<forall>s \<in> set specs. \<exists>b. is_satisfied_by L s c = Inr b" by blast
  have "filter (\<lambda>s. is_satisfied_by L s c = Inr False) specs = []"
    using a by (simp add: filter_empty_conv)
  then show "remainder_unsatisfied_by L (And specs) c = Inr None"
    using non_satisfied_all_evaluate [OF ev] by simp
qed

lemma And_remainder_unsatisfied:
  assumes r: "remainder_unsatisfied_by L (And specs) c = Inr (Some q)"
  shows "is_satisfied_by L q c = Inr False"
proof -
  obtain ns where n: "non_satisfied L specs c = Inr ns"
    using r by (auto split: sum.splits)
  have ev: "\<forall>s \<in> set specs. \<exists>b. is_satisfied_by L s c = Inr b"
    using non_satisfied_Inr_evaluate [OF n] .
  have ns: "ns = filter (\<lambda>s. is_satisfied_by L s c = Inr False) specs"
    using n non_satisfied_all_evaluate [OF ev] by simp
  have unsat: "\<forall>s \<in> set ns. is_satisfied_by L s c = Inr False"
    unfolding ns by simp
  have ne: "ns \<noteq> []"
    using r n by (auto split: if_splits)
  then obtain p where p: "p \<in> set ns" by (cases ns) auto
  have pf: "is_satisfied_by L p c = Inr False" using unsat p by simp
  have pin: "p \<in> set specs" using p unfolding ns by simp
  have pt: "is_satisfied_by L p c \<noteq> Inr True" using pf by simp
  consider (one) "length ns = 1" "q = ns ! 0"
    | (all) "q = And specs"
    | (some) "q = And ns"
    using r n ne by (auto split: if_splits)
  then show ?thesis
  proof cases
    case one
    then have "q \<in> set ns" using ne by (cases ns) auto
    then show ?thesis using unsat by simp
  next
    case all
    have "\<not> (\<forall>s \<in> set specs. is_satisfied_by L s c = Inr True)"
      using pin pt by blast
    then show ?thesis
      unfolding all by (simp only: And_all_evaluate [OF ev])
  next
    case some
    have ev': "\<forall>s \<in> set ns. \<exists>b. is_satisfied_by L s c = Inr b"
      using unsat by blast
    have "\<not> (\<forall>s \<in> set ns. is_satisfied_by L s c = Inr True)"
      using p pt by blast
    then show ?thesis
      unfolding some by (simp only: And_all_evaluate [OF ev'])
  qed
qed

subsection \<open>The model on the three candidates\<close>

lemma employee_ITDepartment: "is_satisfied_by civil_library ITDepartment employee = Inr True"
  by code_simp

lemma employee_Trainee: "is_satisfied_by civil_library Trainee employee = Inr False"
  by code_simp

lemma employee_DirectorBoard: "is_satisfied_by civil_library DirectorBoard employee = Inr False"
  by code_simp

lemma employee_SalaryGreaterThan:
  "is_satisfied_by civil_library (SalaryGreaterThan 4 1045) employee = Inr True"
  by code_simp

lemma employee_remainder:
  "remainder_unsatisfied_by civil_library
     (And [ITDepartment, Trainee, SalaryGreaterThan 4 1045]) employee = Inr (Some Trainee)"
  by code_simp

lemma employee_remainder_Trainee:
  "remainder_unsatisfied_by civil_library Trainee employee = Inr (Some Trainee)"
  by code_simp

lemma employee_salary: "employee ''salario_bruto'' = Some (PyDecimal 5225)"
  by (simp add: employee_def)

lemma ratio_5225: "Decimal_truediv civil_library 5225 1045 = Inr 5"
  by (simp add: civil_library_def exact_truediv_def)

lemma newcomer_admission: "newcomer ''data_de_admissao'' = Some (PyStr ''2023-01-01'')"
  by (simp add: newcomer_def)

lemma parse_2023: "pendulum_parse civil_library ''2023-01-01'' = Some (Date 2023 1 1)"
  by code_simp

lemma frozen_2024:
  "frozen_init civil_library (Some (PyStr ''2024-01-01'')) (Date 2000 1 1) = Inr (Date 2024 1 1)"
  by code_simp

lemma days_2023_2024: "diff_in_days civil_library (Date 2023 1 1) (Date 2024 1 1) = 365"
  by code_simp

lemma years_2023_2024: "diff_in_years civil_library (Date 2023 1 1) (Date 2024 1 1) = 1"
  by code_simp

lemma malformed_salary: "malformed ''salario_bruto'' = Some (PyStr ''abc'')"
  by (simp add: malformed_def)

lemma malformed_admission: "malformed ''data_de_admissao'' = Some (PyStr ''not a date'')"
  by (simp add: malformed_def)

lemma malformed_area: "malformed ''area'' = None"
  by (simp add: malformed_def)

lemma Decimal_abc: "Decimal_of_str civil_library ''abc'' = None"
  by code_simp

lemma parse_not_a_date: "pendulum_parse civil_library ''not a date'' = None"
  by code_simp

lemma employee_And: "is_satisfied_by civil_library (And [ITDepartment, Trainee]) employee = Inr False"
  by code_simp

lemma employee_Invert:
  "is_satisfied_by civil_library (Invert (And [ITDepartment, Trainee])) employee = Inr True"
  by code_simp

section \<open>The operators on the store\<close>

subsection \<open>Frames\<close>

text \<open>
  Allocation changes the value of no object, and the update of an object changes the value of
  no object that does not reach it.
\<close>

lemma denotes_bound: "denotes store r v \<Longrightarrow> r < length store"
  by (erule denotes.cases) auto

lemma denotes_frame_append:
  "denotes store r v \<Longrightarrow> denotes (store @ [obj]) r v"
proof (induction rule: denotes.induct)
  case (denotes_And r store rs vs)
  have "list_all2 (denotes (store @ [obj])) rs vs"
    using denotes_And.IH by (rule list_all2_mono) simp
  then show ?case
    using denotes_And.hyps by (intro denotes.denotes_And) (simp_all add: nth_append)
next
  case (denotes_Or r store rs vs)
  have "list_all2 (denotes (store @ [obj])) rs vs"
    using denotes_Or.IH by (rule list_all2_mono) simp
  then show ?case
    using denotes_Or.hyps by (intro denotes.denotes_Or) (simp_all add: nth_append)
next
  case (denotes_Invert r store x v)
  then show ?case by (intro denotes.denotes_Invert) (simp_all add: nth_append)
next
  case (denotes_Xor r store x y v w)
  then show ?case by (intro denotes.denotes_Xor) (simp_all add: nth_append)
next
  case (denotes_Plain r store v)
  then show ?case by (intro denotes.denotes_Plain) (simp_all add: nth_append)
qed

lemma refers_rtranclp:
  "refers store x y \<Longrightarrow> \<not> (refers store)\<^sup>*\<^sup>* x l \<Longrightarrow> \<not> (refers store)\<^sup>*\<^sup>* y l"
  using converse_rtranclp_into_rtranclp [of "refers store" x y l] by blast

lemma denotes_frame_update:
  "denotes store r v \<Longrightarrow> \<not> (refers store)\<^sup>*\<^sup>* r l \<Longrightarrow> denotes (store[l := obj]) r v"
proof (induction rule: denotes.induct)
  case (denotes_And r store rs vs)
  have ne: "r \<noteq> l" using denotes_And.prems by auto
  have "list_all2 (denotes (store[l := obj])) rs vs"
    using denotes_And.IH
  proof (rule list.rel_mono_strong)
    fix x v
    assume x: "x \<in> set rs" and "v \<in> set vs"
      and ih: "denotes store x v \<and> (\<not> (refers store)\<^sup>*\<^sup>* x l \<longrightarrow> denotes (store[l := obj]) x v)"
    have "refers store r x"
      using x denotes_And.hyps by (simp add: refers_def)
    then have "\<not> (refers store)\<^sup>*\<^sup>* x l"
      using denotes_And.prems by (rule refers_rtranclp)
    with ih show "denotes (store[l := obj]) x v" by blast
  qed
  then show ?case
    using denotes_And.hyps ne by (intro denotes.denotes_And) simp_all
next
  case (denotes_Or r store rs vs)
  have ne: "r \<noteq> l" using denotes_Or.prems by auto
  have "list_all2 (denotes (store[l := obj])) rs vs"
    using denotes_Or.IH
  proof (rule list.rel_mono_strong)
    fix x v
    assume x: "x \<in> set rs" and "v \<in> set vs"
      and ih: "denotes store x v \<and> (\<not> (refers store)\<^sup>*\<^sup>* x l \<longrightarrow> denotes (store[l := obj]) x v)"
    have "refers store r x"
      using x denotes_Or.hyps by (simp add: refers_def)
    then have "\<not> (refers store)\<^sup>*\<^sup>* x l"
      using denotes_Or.prems by (rule refers_rtranclp)
    with ih show "denotes (store[l := obj]) x v" by blast
  qed
  then show ?case
    using denotes_Or.hyps ne by (intro denotes.denotes_Or) simp_all
next
  case (denotes_Invert r store x v)
  have ne: "r \<noteq> l" using denotes_Invert.prems by auto
  have "refers store r x"
    using denotes_Invert.hyps by (simp add: refers_def)
  then have "\<not> (refers store)\<^sup>*\<^sup>* x l"
    using denotes_Invert.prems by (rule refers_rtranclp)
  then have "denotes (store[l := obj]) x v" by (rule denotes_Invert.IH)
  then show ?case
    using denotes_Invert.hyps ne by (intro denotes.denotes_Invert) simp_all
next
  case (denotes_Xor r store x y v w)
  have ne: "r \<noteq> l" using denotes_Xor.prems by auto
  have "refers store r x" and "refers store r y"
    using denotes_Xor.hyps by (simp_all add: refers_def)
  then have "\<not> (refers store)\<^sup>*\<^sup>* x l" and "\<not> (refers store)\<^sup>*\<^sup>* y l"
    using denotes_Xor.prems by (auto dest: refers_rtranclp)
  then have "denotes (store[l := obj]) x v" and "denotes (store[l := obj]) y w"
    using denotes_Xor.IH by blast+
  then show ?case
    using denotes_Xor.hyps ne by (intro denotes.denotes_Xor) simp_all
next
  case (denotes_Plain r store v)
  have ne: "r \<noteq> l" using denotes_Plain.prems by auto
  show ?case
    using denotes_Plain.hyps ne by (intro denotes.denotes_Plain) simp_all
qed

lemma list_all2_frame_update:
  assumes "list_all2 (denotes store) rs vs"
    and "\<forall>x \<in> set rs. \<not> (refers store)\<^sup>*\<^sup>* x l"
  shows "list_all2 (denotes (store[l := obj])) rs vs"
  using assms(1)
proof (rule list.rel_mono_strong)
  fix x v
  assume "x \<in> set rs" and "denotes store x v"
  then show "denotes (store[l := obj]) x v"
    using assms(2) denotes_frame_update by blast
qed

subsection \<open>Objects with a value are acyclic\<close>

lemma list_all2_functional:
  assumes "list_all2 (\<lambda>x v. P x v \<and> (\<forall>v'. P x v' \<longrightarrow> v = v')) xs vs"
    and "list_all2 P xs vs'"
  shows "vs = vs'"
  using assms
proof (induction xs vs arbitrary: vs' rule: list_all2_induct)
  case Nil
  then show ?case by simp
next
  case (Cons x v xs vs)
  then show ?case by (cases vs') auto
qed

lemma denotes_functional:
  "denotes store r v \<Longrightarrow> denotes store r v' \<Longrightarrow> v = v'"
proof (induction arbitrary: v' rule: denotes.induct)
  case (denotes_And r store rs vs)
  from denotes_And.prems denotes_And.hyps obtain vs' where
    "v' = And vs'" and "list_all2 (denotes store) rs vs'"
    by (cases rule: denotes.cases) auto
  then show ?case
    using list_all2_functional [OF denotes_And.IH] by simp
next
  case (denotes_Or r store rs vs)
  from denotes_Or.prems denotes_Or.hyps obtain vs' where
    "v' = Or vs'" and "list_all2 (denotes store) rs vs'"
    by (cases rule: denotes.cases) auto
  then show ?case
    using list_all2_functional [OF denotes_Or.IH] by simp
next
  case (denotes_Invert r store x v)
  from denotes_Invert.prems denotes_Invert.hyps obtain w where
    "v' = Invert w" and "denotes store x w"
    by (cases rule: denotes.cases) auto
  then show ?case using denotes_Invert.IH by simp
next
  case (denotes_Xor r store x y v w)
  from denotes_Xor.prems denotes_Xor.hyps obtain a b where
    "v' = Xor a b" and "denotes store x a" and "denotes store y b"
    by (cases rule: denotes.cases) auto
  then show ?case using denotes_Xor.IH by simp
next
  case (denotes_Plain r store v)
  from denotes_Plain.prems denotes_Plain.hyps show ?case
    by (cases rule: denotes.cases) auto
qed

lemma size_member: "v \<in> set vs \<Longrightarrow> size v < Suc (size_list size vs)"
  by (induction vs) auto

lemma list_all2_member:
  "list_all2 P xs vs \<Longrightarrow> x \<in> set xs \<Longrightarrow> \<exists>v \<in> set vs. P x v"
  by (induction rule: list_all2_induct) auto

lemma refers_value:
  assumes "denotes store x v" and "refers store x y"
  shows "\<exists>w. denotes store y w \<and> size w < size v"
  using assms
proof (cases rule: denotes.cases)
  case (denotes_And rs vs)
  then have "y \<in> set rs" using assms(2) by (simp add: refers_def)
  then obtain w where "w \<in> set vs" and "denotes store y w"
    using denotes_And(4) list_all2_member [of "denotes store" rs vs y] by blast
  then show ?thesis
    using denotes_And(1) size_member [of w vs] by auto
next
  case (denotes_Or rs vs)
  then have "y \<in> set rs" using assms(2) by (simp add: refers_def)
  then obtain w where "w \<in> set vs" and "denotes store y w"
    using denotes_Or(4) list_all2_member [of "denotes store" rs vs y] by blast
  then show ?thesis
    using denotes_Or(1) size_member [of w vs] by auto
next
  case (denotes_Invert x' w)
  then show ?thesis using assms(2) by (auto simp add: refers_def)
next
  case (denotes_Xor x' y' a b)
  then show ?thesis using assms(2) by (auto simp add: refers_def)
next
  case denotes_Plain
  then show ?thesis using assms(2) by (simp add: refers_def)
qed

lemma contains_value:
  "(refers store)\<^sup>+\<^sup>+ x y \<Longrightarrow> denotes store x v \<Longrightarrow> \<exists>w. denotes store y w \<and> size w < size v"
proof (induction arbitrary: v rule: tranclp_induct)
  case (base y)
  then show ?case using refers_value by blast
next
  case (step y z)
  then obtain w where "denotes store y w" and "size w < size v" by blast
  moreover obtain u where "denotes store z u" and "size u < size w"
    using refers_value [OF \<open>denotes store y w\<close> step.hyps(2)] by blast
  ultimately show ?case using less_trans by blast
qed

lemma denotes_acyclic:
  assumes "denotes store x v"
  shows "\<not> contains store x x"
proof
  assume "contains store x x"
  then obtain w where "denotes store x w" and "size w < size v"
    using contains_value assms unfolding contains_def by blast
  then show False
    using denotes_functional [OF assms] by auto
qed

lemma no_attributes: "attributes (store ! x) = [] \<Longrightarrow> \<not> contains store x y"
  unfolding contains_def by (auto dest!: tranclpD simp add: refers_def)

subsection \<open>The value of the returned object\<close>

text \<open>
  The tree-level operators \<open>dunder_and\<close> and \<open>dunder_or\<close> give the value of the object that
  the store-level operators return, from the values the operands have before the call, as long
  as the left operand is not updated or the right operand does not contain it.
\<close>

lemma is_AndObject_iff: "is_AndObject obj \<longleftrightarrow> (\<exists>rs. obj = AndObject rs)"
  by (cases obj) (simp_all add: is_AndObject_def)

lemma is_OrObject_iff: "is_OrObject obj \<longleftrightarrow> (\<exists>rs. obj = OrObject rs)"
  by (cases obj) (simp_all add: is_OrObject_def)

lemma denotes_AndObject:
  "denotes store r v \<Longrightarrow> store ! r = AndObject rs \<Longrightarrow>
   \<exists>vs. v = And vs \<and> list_all2 (denotes store) rs vs"
  by (erule denotes.cases) auto

lemma denotes_OrObject:
  "denotes store r v \<Longrightarrow> store ! r = OrObject rs \<Longrightarrow>
   \<exists>vs. v = Or vs \<and> list_all2 (denotes store) rs vs"
  by (erule denotes.cases) auto

lemma denotes_not_AndObject:
  "denotes store r v \<Longrightarrow> \<forall>rs. store ! r \<noteq> AndObject rs \<Longrightarrow> \<not> isinstance_And v"
  by (erule denotes.cases) (auto simp add: isinstance_And_iff)

lemma denotes_not_OrObject:
  "denotes store r v \<Longrightarrow> \<forall>rs. store ! r \<noteq> OrObject rs \<Longrightarrow> \<not> isinstance_Or v"
  by (erule denotes.cases) (auto simp add: isinstance_Or_iff)

lemma store_and_AndObject_AndObject:
  "store ! self = AndObject ls \<Longrightarrow> store ! other = AndObject rs \<Longrightarrow>
   store_and store self other = (store[self := AndObject (ls @ rs)], self)"
  by (simp add: store_and_def)

lemma store_and_AndObject_other:
  "store ! self = AndObject ls \<Longrightarrow> \<forall>rs. store ! other \<noteq> AndObject rs \<Longrightarrow>
   store_and store self other = (store[self := AndObject (ls @ [other])], self)"
  by (cases "store ! other") (simp_all add: store_and_def)

lemma store_and_other:
  "\<forall>ls. store ! self \<noteq> AndObject ls \<Longrightarrow>
   store_and store self other = (store @ [AndObject [self, other]], length store)"
  by (cases "store ! self") (simp_all add: store_and_def)

lemma store_or_OrObject_OrObject:
  "store ! self = OrObject ls \<Longrightarrow> store ! other = OrObject rs \<Longrightarrow>
   store_or store self other = (store[self := OrObject (ls @ rs)], self)"
  by (simp add: store_or_def)

lemma store_or_OrObject_other:
  "store ! self = OrObject ls \<Longrightarrow> \<forall>rs. store ! other \<noteq> OrObject rs \<Longrightarrow>
   store_or store self other = (store[self := OrObject (ls @ [other])], self)"
  by (cases "store ! other") (simp_all add: store_or_def)

lemma store_or_other:
  "\<forall>ls. store ! self \<noteq> OrObject ls \<Longrightarrow>
   store_or store self other = (store @ [OrObject [self, other]], length store)"
  by (cases "store ! self") (simp_all add: store_or_def)

lemma attributes_unchanged:
  assumes v: "denotes store self v" and x: "x \<in> set (attributes (store ! self))"
  shows "\<not> (refers store)\<^sup>*\<^sup>* x self"
proof
  assume "(refers store)\<^sup>*\<^sup>* x self"
  moreover have "refers store self x"
    using x denotes_bound [OF v] by (simp add: refers_def)
  ultimately have "contains store self self"
    unfolding contains_def by (rule rtranclp_into_tranclp2 [rotated])
  then show False using denotes_acyclic [OF v] by simp
qed

lemma other_attributes_unchanged:
  assumes nc: "\<not> contains store other self" and w: "denotes store other w"
    and x: "x \<in> set (attributes (store ! other))"
  shows "\<not> (refers store)\<^sup>*\<^sup>* x self"
proof
  assume "(refers store)\<^sup>*\<^sup>* x self"
  moreover have "refers store other x"
    using x denotes_bound [OF w] by (simp add: refers_def)
  ultimately have "contains store other self"
    unfolding contains_def by (rule rtranclp_into_tranclp2 [rotated])
  then show False using nc by simp
qed

lemma other_unchanged:
  assumes nc: "\<not> contains store other self" and ne: "other \<noteq> self"
  shows "\<not> (refers store)\<^sup>*\<^sup>* other self"
  using nc ne unfolding contains_def by (auto dest: rtranclpD)

lemma store_and_value:
  assumes v: "denotes store self v" and w: "denotes store other w"
    and nc: "\<not> contains store other self"
  shows "denotes (fst (store_and store self other)) (snd (store_and store self other))
           (dunder_and v w)"
proof (cases "\<exists>ls. store ! self = AndObject ls")
  case True
  then obtain ls where ls: "store ! self = AndObject ls" by blast
  obtain vs where vs: "v = And vs" "list_all2 (denotes store) ls vs"
    using denotes_AndObject [OF v ls] by blast
  have bound: "self < length store" by (rule denotes_bound [OF v])
  have kept: "\<forall>x \<in> set ls. \<not> (refers store)\<^sup>*\<^sup>* x self"
    using attributes_unchanged [OF v] ls by simp
  show ?thesis
  proof (cases "\<exists>rs. store ! other = AndObject rs")
    case True
    then obtain rs where rs: "store ! other = AndObject rs" by blast
    obtain ws where ws: "w = And ws" "list_all2 (denotes store) rs ws"
      using denotes_AndObject [OF w rs] by blast
    have kept': "\<forall>x \<in> set rs. \<not> (refers store)\<^sup>*\<^sup>* x self"
      using other_attributes_unchanged [OF nc w] rs by simp
    let ?store = "store[self := AndObject (ls @ rs)]"
    have "list_all2 (denotes ?store) (ls @ rs) (vs @ ws)"
      using list_all2_frame_update [OF vs(2) kept] list_all2_frame_update [OF ws(2) kept']
      by (rule list_all2_appendI)
    then have "denotes ?store self (And (vs @ ws))"
      using bound by (intro denotes_And) simp_all
    then show ?thesis
      by (simp add: store_and_def ls rs vs(1) ws(1) dunder_and_And_And)
  next
    case False
    then have no: "\<forall>rs. store ! other \<noteq> AndObject rs" by blast
    have ne: "other \<noteq> self" using ls no by auto
    have nw: "\<not> isinstance_And w" by (rule denotes_not_AndObject [OF w no])
    let ?store = "store[self := AndObject (ls @ [other])]"
    have "denotes ?store other w"
      using w other_unchanged [OF nc ne] by (rule denotes_frame_update)
    then have "list_all2 (denotes ?store) (ls @ [other]) (vs @ [w])"
      using list_all2_frame_update [OF vs(2) kept] by (intro list_all2_appendI) simp_all
    then have "denotes ?store self (And (vs @ [w]))"
      using bound by (intro denotes_And) simp_all
    then show ?thesis
      by (simp add: store_and_AndObject_other [OF ls no] vs(1) dunder_and_And_other [OF nw])
  qed
next
  case False
  then have no: "\<forall>ls. store ! self \<noteq> AndObject ls" by blast
  have nv: "\<not> isinstance_And v" by (rule denotes_not_AndObject [OF v no])
  let ?store = "store @ [AndObject [self, other]]"
  have "list_all2 (denotes ?store) [self, other] [v, w]"
    using denotes_frame_append [OF v, of "AndObject [self, other]"]
      denotes_frame_append [OF w, of "AndObject [self, other]"] by simp
  then have "denotes ?store (length store) (And [v, w])"
    by (intro denotes_And [where rs = "[self, other]"]) simp_all
  then show ?thesis
    by (simp add: store_and_other [OF no] dunder_and_other [OF nv])
qed

lemma store_or_value:
  assumes v: "denotes store self v" and w: "denotes store other w"
    and nc: "\<not> contains store other self"
  shows "denotes (fst (store_or store self other)) (snd (store_or store self other))
           (dunder_or v w)"
proof (cases "\<exists>ls. store ! self = OrObject ls")
  case True
  then obtain ls where ls: "store ! self = OrObject ls" by blast
  obtain vs where vs: "v = Or vs" "list_all2 (denotes store) ls vs"
    using denotes_OrObject [OF v ls] by blast
  have bound: "self < length store" by (rule denotes_bound [OF v])
  have kept: "\<forall>x \<in> set ls. \<not> (refers store)\<^sup>*\<^sup>* x self"
    using attributes_unchanged [OF v] ls by simp
  show ?thesis
  proof (cases "\<exists>rs. store ! other = OrObject rs")
    case True
    then obtain rs where rs: "store ! other = OrObject rs" by blast
    obtain ws where ws: "w = Or ws" "list_all2 (denotes store) rs ws"
      using denotes_OrObject [OF w rs] by blast
    have kept': "\<forall>x \<in> set rs. \<not> (refers store)\<^sup>*\<^sup>* x self"
      using other_attributes_unchanged [OF nc w] rs by simp
    let ?store = "store[self := OrObject (ls @ rs)]"
    have "list_all2 (denotes ?store) (ls @ rs) (vs @ ws)"
      using list_all2_frame_update [OF vs(2) kept] list_all2_frame_update [OF ws(2) kept']
      by (rule list_all2_appendI)
    then have "denotes ?store self (Or (vs @ ws))"
      using bound by (intro denotes_Or) simp_all
    then show ?thesis
      by (simp add: store_or_def ls rs vs(1) ws(1) dunder_or_Or_Or)
  next
    case False
    then have no: "\<forall>rs. store ! other \<noteq> OrObject rs" by blast
    have ne: "other \<noteq> self" using ls no by auto
    have nw: "\<not> isinstance_Or w" by (rule denotes_not_OrObject [OF w no])
    let ?store = "store[self := OrObject (ls @ [other])]"
    have "denotes ?store other w"
      using w other_unchanged [OF nc ne] by (rule denotes_frame_update)
    then have "list_all2 (denotes ?store) (ls @ [other]) (vs @ [w])"
      using list_all2_frame_update [OF vs(2) kept] by (intro list_all2_appendI) simp_all
    then have "denotes ?store self (Or (vs @ [w]))"
      using bound by (intro denotes_Or) simp_all
    then show ?thesis
      by (simp add: store_or_OrObject_other [OF ls no] vs(1) dunder_or_Or_other [OF nw])
  qed
next
  case False
  then have no: "\<forall>ls. store ! self \<noteq> OrObject ls" by blast
  have nv: "\<not> isinstance_Or v" by (rule denotes_not_OrObject [OF v no])
  let ?store = "store @ [OrObject [self, other]]"
  have "list_all2 (denotes ?store) [self, other] [v, w]"
    using denotes_frame_append [OF v, of "OrObject [self, other]"]
      denotes_frame_append [OF w, of "OrObject [self, other]"] by simp
  then have "denotes ?store (length store) (Or [v, w])"
    by (intro denotes_Or [where rs = "[self, other]"]) simp_all
  then show ?thesis
    by (simp add: store_or_other [OF no] dunder_or_other [OF nv])
qed

lemma store_and_value_fresh:
  assumes v: "denotes store self v" and w: "denotes store other w"
    and side: "\<not> is_AndObject (store ! self) \<or> \<not> contains store other self"
  shows "denotes (fst (store_and store self other)) (snd (store_and store self other))
           (dunder_and v w)"
proof (cases "is_AndObject (store ! self)")
  case True
  then show ?thesis using side store_and_value [OF v w] by blast
next
  case False
  then have no: "\<forall>ls. store ! self \<noteq> AndObject ls" by (simp add: is_AndObject_iff)
  have nv: "\<not> isinstance_And v" by (rule denotes_not_AndObject [OF v no])
  let ?store = "store @ [AndObject [self, other]]"
  have "list_all2 (denotes ?store) [self, other] [v, w]"
    using denotes_frame_append [OF v, of "AndObject [self, other]"]
      denotes_frame_append [OF w, of "AndObject [self, other]"] by simp
  then have "denotes ?store (length store) (And [v, w])"
    by (intro denotes_And [where rs = "[self, other]"]) simp_all
  then show ?thesis
    by (simp add: store_and_other [OF no] dunder_and_other [OF nv])
qed

lemma store_or_value_fresh:
  assumes v: "denotes store self v" and w: "denotes store other w"
    and side: "\<not> is_OrObject (store ! self) \<or> \<not> contains store other self"
  shows "denotes (fst (store_or store self other)) (snd (store_or store self other))
           (dunder_or v w)"
proof (cases "is_OrObject (store ! self)")
  case True
  then show ?thesis using side store_or_value [OF v w] by blast
next
  case False
  then have no: "\<forall>ls. store ! self \<noteq> OrObject ls" by (simp add: is_OrObject_iff)
  have nv: "\<not> isinstance_Or v" by (rule denotes_not_OrObject [OF v no])
  let ?store = "store @ [OrObject [self, other]]"
  have "list_all2 (denotes ?store) [self, other] [v, w]"
    using denotes_frame_append [OF v, of "OrObject [self, other]"]
      denotes_frame_append [OF w, of "OrObject [self, other]"] by simp
  then have "denotes ?store (length store) (Or [v, w])"
    by (intro denotes_Or [where rs = "[self, other]"]) simp_all
  then show ?thesis
    by (simp add: store_or_other [OF no] dunder_or_other [OF nv])
qed

lemma store_xor_value:
  assumes v: "denotes store self v" and w: "denotes store other w"
  shows "denotes (fst (store_xor store self other)) (snd (store_xor store self other))
           (Xor v w)"
  unfolding store_xor_def
  using denotes_frame_append [OF v, of "XorObject self other"]
    denotes_frame_append [OF w, of "XorObject self other"]
  by (intro denotes_Xor [where x = self and y = other]) simp_all

lemma store_invert_value:
  assumes v: "denotes store self v"
  shows "denotes (fst (store_invert store self)) (snd (store_invert store self)) (Invert v)"
  unfolding store_invert_def
  using denotes_frame_append [OF v, of "InvertObject self"]
  by (intro denotes_Invert [where x = self]) simp_all

lemma store_and_three:
  assumes "c < length store" and "\<not> is_AndObject (store ! a)" and "\<not> is_AndObject (store ! c)"
  shows "store_and (fst (store_and store a b)) (snd (store_and store a b)) c =
           (store @ [AndObject [a, b, c]], length store)"
proof -
  have a: "\<forall>ls. store ! a \<noteq> AndObject ls"
    using assms(2) by (simp add: is_AndObject_iff)
  let ?store = "store @ [AndObject [a, b]]"
  have self: "?store ! length store = AndObject [a, b]" by simp
  have other: "\<forall>rs. ?store ! c \<noteq> AndObject rs"
    using assms(1,3) by (simp add: nth_append is_AndObject_iff)
  show ?thesis
    by (simp add: store_and_other [OF a] store_and_AndObject_other [OF self other])
qed

lemma store_or_three:
  assumes "c < length store" and "\<not> is_OrObject (store ! a)" and "\<not> is_OrObject (store ! c)"
  shows "store_or (fst (store_or store a b)) (snd (store_or store a b)) c =
           (store @ [OrObject [a, b, c]], length store)"
proof -
  have a: "\<forall>ls. store ! a \<noteq> OrObject ls"
    using assms(2) by (simp add: is_OrObject_iff)
  let ?store = "store @ [OrObject [a, b]]"
  have self: "?store ! length store = OrObject [a, b]" by simp
  have other: "\<forall>rs. ?store ! c \<noteq> OrObject rs"
    using assms(1,3) by (simp add: nth_append is_OrObject_iff)
  show ?thesis
    by (simp add: store_or_other [OF a] store_or_OrObject_other [OF self other])
qed

lemma denotes_three_And:
  assumes "denotes store a u" and "denotes store b v" and "denotes store c w"
  shows "denotes (store @ [AndObject [a, b, c]]) (length store) (And [u, v, w])"
proof -
  have "list_all2 (denotes (store @ [AndObject [a, b, c]])) [a, b, c] [u, v, w]"
    using assms [THEN denotes_frame_append, of "AndObject [a, b, c]"] by simp
  then show ?thesis
    by (intro denotes_And [where rs = "[a, b, c]"]) simp_all
qed

lemma denotes_three_Or:
  assumes "denotes store a u" and "denotes store b v" and "denotes store c w"
  shows "denotes (store @ [OrObject [a, b, c]]) (length store) (Or [u, v, w])"
proof -
  have "list_all2 (denotes (store @ [OrObject [a, b, c]])) [a, b, c] [u, v, w]"
    using assms [THEN denotes_frame_append, of "OrObject [a, b, c]"] by simp
  then show ?thesis
    by (intro denotes_Or [where rs = "[a, b, c]"]) simp_all
qed

lemma nested_And: "is_satisfied_by L (And [u, v, w]) c = is_satisfied_by L (And [And [u, v], w]) c"
  by (simp split: sum.splits)

lemma nested_Or: "is_satisfied_by L (Or [u, v, w]) c = is_satisfied_by L (Or [Or [u, v], w]) c"
  by (simp split: sum.splits)

subsection \<open>Evaluation of objects\<close>

text \<open>
  Evaluation reads objects and updates none. On an object with a value it is the evaluation of
  the value, as soon as the nesting allowed exceeds the height of the value.
\<close>

lemma height_member: "v \<in> set vs \<Longrightarrow> height v \<le> foldr max (map height vs) 0"
  by (induction vs) auto

lemma list_all2_map_eq:
  "list_all2 (\<lambda>x v. f x = g v) xs vs \<Longrightarrow> map f xs = map g vs"
  by (induction rule: list_all2_induct) auto

lemma store_is_satisfied_by_value:
  "denotes store r v \<Longrightarrow> height v < depth \<Longrightarrow>
   store_is_satisfied_by depth L store r c = is_satisfied_by L v c"
proof (induction arbitrary: depth rule: denotes.induct)
  case (denotes_And r store rs vs)
  then obtain d where d: "depth = Suc d" by (cases depth) auto
  have "list_all2 (\<lambda>x v. store_is_satisfied_by d L store x c = is_satisfied_by L v c) rs vs"
    using denotes_And.IH
  proof (rule list.rel_mono_strong)
    fix x v
    assume "v \<in> set vs"
      and ih: "denotes store x v \<and>
        (\<forall>depth. height v < depth \<longrightarrow>
           store_is_satisfied_by depth L store x c = is_satisfied_by L v c)"
    then have "height v < d"
      using height_member [of v vs] denotes_And.prems d by simp
    with ih show "store_is_satisfied_by d L store x c = is_satisfied_by L v c" by blast
  qed
  then have "map (\<lambda>x. store_is_satisfied_by d L store x c) rs =
      map (\<lambda>v. is_satisfied_by L v c) vs"
    by (rule list_all2_map_eq)
  then show ?case
    using denotes_And.hyps by (simp add: d)
next
  case (denotes_Or r store rs vs)
  then obtain d where d: "depth = Suc d" by (cases depth) auto
  have "list_all2 (\<lambda>x v. store_is_satisfied_by d L store x c = is_satisfied_by L v c) rs vs"
    using denotes_Or.IH
  proof (rule list.rel_mono_strong)
    fix x v
    assume "v \<in> set vs"
      and ih: "denotes store x v \<and>
        (\<forall>depth. height v < depth \<longrightarrow>
           store_is_satisfied_by depth L store x c = is_satisfied_by L v c)"
    then have "height v < d"
      using height_member [of v vs] denotes_Or.prems d by simp
    with ih show "store_is_satisfied_by d L store x c = is_satisfied_by L v c" by blast
  qed
  then have "map (\<lambda>x. store_is_satisfied_by d L store x c) rs =
      map (\<lambda>v. is_satisfied_by L v c) vs"
    by (rule list_all2_map_eq)
  then show ?case
    using denotes_Or.hyps by (simp add: d)
next
  case (denotes_Invert r store x v)
  then obtain d where d: "depth = Suc d" by (cases depth) auto
  then have "store_is_satisfied_by d L store x c = is_satisfied_by L v c"
    using denotes_Invert by simp
  then show ?case
    using denotes_Invert.hyps by (simp add: d)
next
  case (denotes_Xor r store x y v w)
  then obtain d where d: "depth = Suc d" by (cases depth) auto
  then have "store_is_satisfied_by d L store x c = is_satisfied_by L v c"
    and "store_is_satisfied_by d L store y c = is_satisfied_by L w c"
    using denotes_Xor by simp_all
  then show ?case
    using denotes_Xor.hyps by (simp add: d split: sum.splits)
next
  case (denotes_Plain r store v)
  then obtain d where d: "depth = Suc d" by (cases depth) auto
  show ?case
    using denotes_Plain.hyps by (simp add: d)
qed

subsection \<open>Objects without nesting\<close>

lemma valid_store_iff:
  "valid_store store \<longleftrightarrow>
     (\<forall>r < length store. \<forall>x \<in> set (attributes (store ! r)). x < length store)"
  by (simp add: valid_store_def list_all_iff all_set_conv_all_nth [where xs = store])

lemma store_no_nesting_iff:
  "store_no_nesting store \<longleftrightarrow>
     (\<forall>r < length store. \<forall>x \<in> set (attributes (store ! r)).
        \<not> (is_AndObject (store ! r) \<and> is_AndObject (store ! x))
        \<and> \<not> (is_OrObject (store ! r) \<and> is_OrObject (store ! x)))"
  by (simp add: store_no_nesting_def list_all_iff all_set_conv_all_nth [where xs = store])

lemma update_kinds:
  assumes "self < length store" and "is_AndObject (store ! self)"
  shows "is_AndObject (store[self := AndObject new] ! x) = is_AndObject (store ! x)"
    and "is_OrObject (store[self := AndObject new] ! x) = is_OrObject (store ! x)"
  using assms
  by (cases "x = self"; auto simp add: is_AndObject_def is_OrObject_def split: object.splits)+

lemma update_kinds_Or:
  assumes "self < length store" and "is_OrObject (store ! self)"
  shows "is_AndObject (store[self := OrObject new] ! x) = is_AndObject (store ! x)"
    and "is_OrObject (store[self := OrObject new] ! x) = is_OrObject (store ! x)"
  using assms
  by (cases "x = self"; auto simp add: is_AndObject_def is_OrObject_def split: object.splits)+

lemma update_invariant:
  assumes valid: "valid_store store" and flat: "store_no_nesting store"
    and self: "self < length store" and kind: "store ! self = AndObject ls"
    and new: "\<forall>x \<in> set new. x < length store \<and> \<not> is_AndObject (store ! x)"
  shows "valid_store (store[self := AndObject new])
       \<and> store_no_nesting (store[self := AndObject new])"
proof -
  let ?store = "store[self := AndObject new]"
  have k: "is_AndObject (store ! self)" by (simp add: kind is_AndObject_def)
  note kinds = update_kinds [OF self k, of new]
  have attrs: "\<And>r. r < length store \<Longrightarrow>
      attributes (?store ! r) = (if r = self then new else attributes (store ! r))"
    using self by simp
  have "valid_store ?store"
    using valid new unfolding valid_store_iff by (simp add: attrs)
  moreover have "store_no_nesting ?store"
    unfolding store_no_nesting_iff
  proof (intro allI impI ballI)
    fix r x
    assume r: "r < length ?store" and x: "x \<in> set (attributes (?store ! r))"
    show "\<not> (is_AndObject (?store ! r) \<and> is_AndObject (?store ! x))
        \<and> \<not> (is_OrObject (?store ! r) \<and> is_OrObject (?store ! x))"
    proof (cases "r = self")
      case True
      then have "x \<in> set new" using x self by simp
      then have "\<not> is_AndObject (store ! x)" using new by blast
      moreover have "\<not> is_OrObject (store ! r)"
        using True kind by (simp add: is_OrObject_def)
      ultimately show ?thesis by (simp only: kinds) simp
    next
      case False
      then have "x \<in> set (attributes (store ! r))" using x r by simp
      then show ?thesis
        using flat r unfolding store_no_nesting_iff by (simp only: kinds) simp
    qed
  qed
  ultimately show ?thesis by blast
qed

lemma update_invariant_Or:
  assumes valid: "valid_store store" and flat: "store_no_nesting store"
    and self: "self < length store" and kind: "store ! self = OrObject ls"
    and new: "\<forall>x \<in> set new. x < length store \<and> \<not> is_OrObject (store ! x)"
  shows "valid_store (store[self := OrObject new])
       \<and> store_no_nesting (store[self := OrObject new])"
proof -
  let ?store = "store[self := OrObject new]"
  have k: "is_OrObject (store ! self)" by (simp add: kind is_OrObject_def)
  note kinds = update_kinds_Or [OF self k, of new]
  have attrs: "\<And>r. r < length store \<Longrightarrow>
      attributes (?store ! r) = (if r = self then new else attributes (store ! r))"
    using self by simp
  have "valid_store ?store"
    using valid new unfolding valid_store_iff by (simp add: attrs)
  moreover have "store_no_nesting ?store"
    unfolding store_no_nesting_iff
  proof (intro allI impI ballI)
    fix r x
    assume r: "r < length ?store" and x: "x \<in> set (attributes (?store ! r))"
    show "\<not> (is_AndObject (?store ! r) \<and> is_AndObject (?store ! x))
        \<and> \<not> (is_OrObject (?store ! r) \<and> is_OrObject (?store ! x))"
    proof (cases "r = self")
      case True
      then have "x \<in> set new" using x self by simp
      then have "\<not> is_OrObject (store ! x)" using new by blast
      moreover have "\<not> is_AndObject (store ! r)"
        using True kind by (simp add: is_AndObject_def)
      ultimately show ?thesis by (simp only: kinds) simp
    next
      case False
      then have "x \<in> set (attributes (store ! r))" using x r by simp
      then show ?thesis
        using flat r unfolding store_no_nesting_iff by (simp only: kinds) simp
    qed
  qed
  ultimately show ?thesis by blast
qed

lemma append_invariant:
  assumes valid: "valid_store store" and flat: "store_no_nesting store"
    and new: "\<forall>x \<in> set (attributes obj). x < length store"
    and kinds: "\<forall>x \<in> set (attributes obj).
        \<not> (is_AndObject obj \<and> is_AndObject (store ! x))
        \<and> \<not> (is_OrObject obj \<and> is_OrObject (store ! x))"
  shows "valid_store (store @ [obj]) \<and> store_no_nesting (store @ [obj])"
proof -
  have old: "\<And>r x. r < length store \<Longrightarrow> x \<in> set (attributes (store ! r)) \<Longrightarrow>
      x < length store"
    using valid unfolding valid_store_iff by blast
  have v: "valid_store (store @ [obj])"
    unfolding valid_store_iff
  proof (intro allI impI ballI)
    fix r x
    assume "r < length (store @ [obj])" and "x \<in> set (attributes ((store @ [obj]) ! r))"
    then show "x < length (store @ [obj])"
      using old [of r x] new by (cases "r < length store") (auto simp add: nth_append)
  qed
  have f: "store_no_nesting (store @ [obj])"
    unfolding store_no_nesting_iff
  proof (intro allI impI ballI)
    fix r x
    assume r: "r < length (store @ [obj])" and x: "x \<in> set (attributes ((store @ [obj]) ! r))"
    show "\<not> (is_AndObject ((store @ [obj]) ! r) \<and> is_AndObject ((store @ [obj]) ! x))
        \<and> \<not> (is_OrObject ((store @ [obj]) ! r) \<and> is_OrObject ((store @ [obj]) ! x))"
    proof (cases "r < length store")
      case True
      then have xa: "x \<in> set (attributes (store ! r))" using x by (simp add: nth_append)
      then have "x < length store" using old True by blast
      then show ?thesis
        using flat True xa unfolding store_no_nesting_iff by (simp add: nth_append)
    next
      case False
      then have "r = length store" using r by simp
      then have xa: "x \<in> set (attributes obj)" using x by simp
      then have "x < length store" using new by blast
      then show ?thesis
        using kinds xa \<open>r = length store\<close> by (simp add: nth_append)
    qed
  qed
  show ?thesis using v f by blast
qed

lemma store_and_invariant:
  assumes valid: "valid_store store" and flat: "store_no_nesting store"
    and self: "self < length store" and other: "other < length store"
    and side: "is_AndObject (store ! self) \<or> \<not> is_AndObject (store ! other)"
  shows "valid_store (fst (store_and store self other))
       \<and> store_no_nesting (fst (store_and store self other))"
proof (cases "is_AndObject (store ! self)")
  case True
  then obtain ls where ls: "store ! self = AndObject ls" by (auto simp add: is_AndObject_iff)
  have kept: "\<forall>x \<in> set ls. x < length store \<and> \<not> is_AndObject (store ! x)"
    using valid flat self ls True unfolding valid_store_iff store_no_nesting_iff by fastforce
  show ?thesis
  proof (cases "is_AndObject (store ! other)")
    case True
    then obtain rs where rs: "store ! other = AndObject rs" by (auto simp add: is_AndObject_iff)
    have "\<forall>x \<in> set rs. x < length store \<and> \<not> is_AndObject (store ! x)"
      using valid flat other rs True unfolding valid_store_iff store_no_nesting_iff
      by fastforce
    then have "\<forall>x \<in> set (ls @ rs). x < length store \<and> \<not> is_AndObject (store ! x)"
      using kept by auto
    then show ?thesis
      using update_invariant [OF valid flat self ls]
      by (simp add: store_and_AndObject_AndObject [OF ls rs])
  next
    case False
    then have no: "\<forall>rs. store ! other \<noteq> AndObject rs" by (simp add: is_AndObject_iff)
    have "\<forall>x \<in> set (ls @ [other]). x < length store \<and> \<not> is_AndObject (store ! x)"
      using kept other False by auto
    then show ?thesis
      using update_invariant [OF valid flat self ls]
      by (simp add: store_and_AndObject_other [OF ls no])
  qed
next
  case False
  then have no: "\<forall>ls. store ! self \<noteq> AndObject ls" by (simp add: is_AndObject_iff)
  have "\<not> is_AndObject (store ! other)" using side False by blast
  then show ?thesis
    using append_invariant [OF valid flat, of "AndObject [self, other]"] self other False
    by (simp add: store_and_other [OF no] is_OrObject_def)
qed

lemma store_or_invariant:
  assumes valid: "valid_store store" and flat: "store_no_nesting store"
    and self: "self < length store" and other: "other < length store"
    and side: "is_OrObject (store ! self) \<or> \<not> is_OrObject (store ! other)"
  shows "valid_store (fst (store_or store self other))
       \<and> store_no_nesting (fst (store_or store self other))"
proof (cases "is_OrObject (store ! self)")
  case True
  then obtain ls where ls: "store ! self = OrObject ls" by (auto simp add: is_OrObject_iff)
  have kept: "\<forall>x \<in> set ls. x < length store \<and> \<not> is_OrObject (store ! x)"
    using valid flat self ls True unfolding valid_store_iff store_no_nesting_iff by fastforce
  show ?thesis
  proof (cases "is_OrObject (store ! other)")
    case True
    then obtain rs where rs: "store ! other = OrObject rs" by (auto simp add: is_OrObject_iff)
    have "\<forall>x \<in> set rs. x < length store \<and> \<not> is_OrObject (store ! x)"
      using valid flat other rs True unfolding valid_store_iff store_no_nesting_iff
      by fastforce
    then have "\<forall>x \<in> set (ls @ rs). x < length store \<and> \<not> is_OrObject (store ! x)"
      using kept by auto
    then show ?thesis
      using update_invariant_Or [OF valid flat self ls]
      by (simp add: store_or_OrObject_OrObject [OF ls rs])
  next
    case False
    then have no: "\<forall>rs. store ! other \<noteq> OrObject rs" by (simp add: is_OrObject_iff)
    have "\<forall>x \<in> set (ls @ [other]). x < length store \<and> \<not> is_OrObject (store ! x)"
      using kept other False by auto
    then show ?thesis
      using update_invariant_Or [OF valid flat self ls]
      by (simp add: store_or_OrObject_other [OF ls no])
  qed
next
  case False
  then have no: "\<forall>ls. store ! self \<noteq> OrObject ls" by (simp add: is_OrObject_iff)
  have "\<not> is_OrObject (store ! other)" using side False by blast
  then show ?thesis
    using append_invariant [OF valid flat, of "OrObject [self, other]"] self other False
    by (simp add: store_or_other [OF no] is_AndObject_def)
qed

subsection \<open>The two stores\<close>

text \<open>
  \<^verbatim>\<open>x & ~x\<close>, for the conjunction \<^verbatim>\<open>x\<close> of the second store, appends the negation of \<^verbatim>\<open>x\<close> to
  the children of \<^verbatim>\<open>x\<close>: the object contains itself, and its evaluation passes every limit
  of nesting.
\<close>

lemma denotes_leaves:
  "denotes leaves 0 ITDepartment" "denotes leaves 1 Trainee" "denotes leaves 2 DirectorBoard"
  by (rule denotes_Plain; simp add: leaves_def)+

lemma denotes_negation:
  "denotes negation 0 ITDepartment"
  "denotes negation 2 (And [ITDepartment, Trainee])"
  "denotes negation 3 (Invert (And [ITDepartment, Trainee]))"
proof -
  show 0: "denotes negation 0 ITDepartment"
    by (rule denotes_Plain) (simp_all add: negation_def)
  have 1: "denotes negation 1 Trainee"
    by (rule denotes_Plain) (simp_all add: negation_def)
  show 2: "denotes negation 2 (And [ITDepartment, Trainee])"
    using 0 1 by (intro denotes_And [where rs = "[0, 1]"]) (simp_all add: negation_def)
  show "denotes negation 3 (Invert (And [ITDepartment, Trainee]))"
    using 2 by (intro denotes_Invert [where x = 2]) (simp_all add: negation_def)
qed

lemma store_and_negation:
  "store_and negation 2 3 =
     ([PlainObject ITDepartment, PlainObject Trainee, AndObject [0, 1, 3], InvertObject 2], 2)"
  by (simp add: negation_def store_and_def)

lemma contains_negation:
  "contains [PlainObject ITDepartment, PlainObject Trainee, AndObject [0, 1, 3],
     InvertObject 2 :: date object] 2 2"
proof -
  let ?store = "[PlainObject ITDepartment, PlainObject Trainee, AndObject [0, 1, 3],
    InvertObject 2 :: date object]"
  have "refers ?store 2 3" and "refers ?store 3 2"
    by (simp_all add: refers_def)
  then show ?thesis
    unfolding contains_def by (rule tranclp.intros(2) [OF tranclp.intros(1)])
qed

lemma cyclic_RecursionError:
  "store_is_satisfied_by depth civil_library
     [PlainObject ITDepartment, PlainObject Trainee, AndObject [0, 1, 3], InvertObject 2] 2
     employee = Inl RecursionError"
proof (induction depth rule: less_induct)
  case (less depth)
  let ?store = "[PlainObject ITDepartment, PlainObject Trainee, AndObject [0, 1, 3],
    InvertObject 2 :: date object]"
  show ?case
  proof (cases depth)
    case 0
    then show ?thesis by simp
  next
    case (Suc d)
    show ?thesis
    proof (cases d)
      case 0
      then show ?thesis by (simp add: Suc)
    next
      case d: (Suc k)
      have "store_is_satisfied_by k civil_library ?store 2 employee = Inl RecursionError"
        using less.IH [of k] Suc d by simp
      then have three: "store_is_satisfied_by d civil_library ?store 3 employee =
          Inl RecursionError"
        by (simp add: d)
      have zero: "store_is_satisfied_by d civil_library ?store 0 employee = Inr True"
        using employee_ITDepartment by (simp add: d del: is_satisfied_by.simps)
      have one: "store_is_satisfied_by d civil_library ?store 1 employee = Inr False"
        using employee_Trainee by (simp add: d del: is_satisfied_by.simps)
      show ?thesis
        unfolding Suc using zero one three
        by (simp del: store_is_satisfied_by.simps add: store_is_satisfied_by.simps(2))
    qed
  qed
qed

section \<open>The remainder of a conjunction\<close>

text \<open>
  Claim C1. For an \<^verbatim>\<open>And\<close> node whose children all evaluate on the candidate, let \<open>ns\<close> be the
  children that the candidate does not satisfy, in order. \<^verbatim>\<open>remainder_unsatisfied_by\<close> returns
  \<^verbatim>\<open>None\<close> when \<open>ns\<close> is empty; the child itself when \<open>ns\<close> holds exactly one child;
  otherwise the \<^verbatim>\<open>And\<close> node itself when every child is in \<open>ns\<close>; and otherwise a new
  \<^verbatim>\<open>And\<close> of exactly the children in \<open>ns\<close>. The cases are tried in this order, so that a
  node with a single child, unsatisfied, returns the child. The statement also covers the
  empty child list, where \<open>ns\<close> is empty.
\<close>

theorem And_remainder_cases:
  assumes ev: "\<forall>s \<in> set specs. \<exists>b. is_satisfied_by L s c = Inr b"
    and ns: "ns = filter (\<lambda>s. is_satisfied_by L s c = Inr False) specs"
  shows "(ns = [] \<longrightarrow> remainder_unsatisfied_by L (And specs) c = Inr None)
       \<and> (\<forall>p. ns = [p] \<longrightarrow> remainder_unsatisfied_by L (And specs) c = Inr (Some p))
       \<and> (length ns > 1 \<and> ns = specs \<longrightarrow>
            remainder_unsatisfied_by L (And specs) c = Inr (Some (And specs)))
       \<and> (length ns > 1 \<and> ns \<noteq> specs \<longrightarrow>
            remainder_unsatisfied_by L (And specs) c = Inr (Some (And ns)))"
proof -
  have eq: "non_satisfied L specs c = Inr ns"
    using non_satisfied_all_evaluate [OF ev] ns by simp
  have len: "length ns = length specs \<longleftrightarrow> ns = specs"
    unfolding ns
    by (metis (mono_tags, lifting) filter_True length_filter_less less_irrefl_nat)
  show ?thesis
    using len by (auto simp add: eq)
qed

text \<open>
  On the analyst: one failing child of three is returned as it is; two failing children of two
  return the node; two failing children of three return a new conjunction of the two; no
  failing child returns \<^verbatim>\<open>None\<close>.
\<close>

theorem And_remainder_cases_witness:
  "remainder_unsatisfied_by civil_library
     (And [ITDepartment, Trainee, SalaryGreaterThan 4 1045]) employee = Inr (Some Trainee)
   \<and> remainder_unsatisfied_by civil_library (And [Trainee, DirectorBoard]) employee =
       Inr (Some (And [Trainee, DirectorBoard]))
   \<and> remainder_unsatisfied_by civil_library (And [Trainee, ITDepartment, DirectorBoard]) employee =
       Inr (Some (And [Trainee, DirectorBoard]))
   \<and> remainder_unsatisfied_by civil_library (And [ITDepartment, SalaryGreaterThan 4 1045])
       employee = Inr None"
proof -
  note e = employee_ITDepartment employee_Trainee employee_DirectorBoard
    employee_SalaryGreaterThan
  have ev1: "\<forall>s \<in> set [ITDepartment, Trainee, SalaryGreaterThan 4 1045].
      \<exists>b. is_satisfied_by civil_library s employee = Inr b"
    by (auto simp del: is_satisfied_by.simps simp add: e)
  have ns1: "[Trainee] = filter (\<lambda>s. is_satisfied_by civil_library s employee = Inr False)
      [ITDepartment, Trainee, SalaryGreaterThan 4 1045]"
    by (simp del: is_satisfied_by.simps add: e)
  have ev2: "\<forall>s \<in> set [Trainee, DirectorBoard].
      \<exists>b. is_satisfied_by civil_library s employee = Inr b"
    by (auto simp del: is_satisfied_by.simps simp add: e)
  have ns2: "[Trainee, DirectorBoard] =
      filter (\<lambda>s. is_satisfied_by civil_library s employee = Inr False) [Trainee, DirectorBoard]"
    by (simp del: is_satisfied_by.simps add: e)
  have ev3: "\<forall>s \<in> set [Trainee, ITDepartment, DirectorBoard].
      \<exists>b. is_satisfied_by civil_library s employee = Inr b"
    by (auto simp del: is_satisfied_by.simps simp add: e)
  have ns3: "[Trainee, DirectorBoard] =
      filter (\<lambda>s. is_satisfied_by civil_library s employee = Inr False)
        [Trainee, ITDepartment, DirectorBoard]"
    by (simp del: is_satisfied_by.simps add: e)
  have ev4: "\<forall>s \<in> set [ITDepartment, SalaryGreaterThan 4 1045].
      \<exists>b. is_satisfied_by civil_library s employee = Inr b"
    by (auto simp del: is_satisfied_by.simps simp add: e)
  have ns4: "[] = filter (\<lambda>s. is_satisfied_by civil_library s employee = Inr False)
      [ITDepartment, SalaryGreaterThan 4 1045]"
    by (simp del: is_satisfied_by.simps add: e)
  show ?thesis
    using And_remainder_cases [OF ev1 ns1] And_remainder_cases [OF ev2 ns2]
      And_remainder_cases [OF ev3 ns3] And_remainder_cases [OF ev4 ns4]
    by simp
qed

section \<open>Truth tables of the operators\<close>

text \<open>
  Claim C2 says that \<^verbatim>\<open>(a & b).is_satisfied_by(c)\<close> is the conjunction of
  \<^verbatim>\<open>a.is_satisfied_by(c)\<close> and \<^verbatim>\<open>b.is_satisfied_by(c)\<close> for all specifications \<^verbatim>\<open>a\<close> and \<^verbatim>\<open>b\<close>.
  When \<^verbatim>\<open>a\<close> is an \<^verbatim>\<open>And\<close> object and \<^verbatim>\<open>b\<close> contains \<^verbatim>\<open>a\<close>, it is not. In the second store, the
  conjunction \<^verbatim>\<open>x\<close> (object 2) is not satisfied by the analyst and its negation (object 3) is;
  \<^verbatim>\<open>x & ~x\<close> returns \<^verbatim>\<open>x\<close> with the negation among its children, an object that contains itself,
  and evaluating it raises \<^verbatim>\<open>RecursionError\<close> (here with 1000 nested calls allowed, with any
  number by \<open>cyclic_RecursionError\<close>).
\<close>

theorem own_negation_counterexample:
  "denotes negation 2 (And [ITDepartment, Trainee])
   \<and> denotes negation 3 (Invert (And [ITDepartment, Trainee]))
   \<and> is_satisfied_by civil_library (And [ITDepartment, Trainee]) employee = Inr False
   \<and> is_satisfied_by civil_library (Invert (And [ITDepartment, Trainee])) employee = Inr True
   \<and> store_and negation 2 3 =
       ([PlainObject ITDepartment, PlainObject Trainee, AndObject [0, 1, 3], InvertObject 2], 2)
   \<and> contains (fst (store_and negation 2 3)) 2 2
   \<and> store_is_satisfied_by 1000 civil_library
       (fst (store_and negation 2 3)) (snd (store_and negation 2 3)) employee =
       Inl RecursionError"
  using denotes_negation(2,3) employee_And employee_Invert cyclic_RecursionError [of 1000]
    contains_negation
  by (simp only: store_and_negation fst_conv snd_conv)

text \<open>
  Claim C2, amended. Let the objects \<open>a\<close> and \<open>b\<close> have the values \<open>v\<close> and \<open>w\<close>, whose
  evaluations on a candidate return \<open>x\<close> and \<open>y\<close>. If \<open>a\<close> is not an \<^verbatim>\<open>And\<close> object or \<open>b\<close> does
  not contain \<open>a\<close>, the object that \<^verbatim>\<open>a & b\<close> returns has the value \<open>dunder_and v w\<close>, which
  evaluates to the conjunction of \<open>x\<close> and \<open>y\<close>, and so does the object whenever the nesting
  allowed exceeds the height of the value. If \<open>a\<close> is not an \<^verbatim>\<open>Or\<close> object or \<open>b\<close> does not
  contain \<open>a\<close>, the object that \<^verbatim>\<open>a | b\<close> returns has the value \<open>dunder_or v w\<close>, which evaluates
  to their disjunction. For all \<open>a\<close> and \<open>b\<close>, the object that \<^verbatim>\<open>a ^ b\<close> returns evaluates to
  their exclusive or (true exactly when one of the two is true), and the object that \<^verbatim>\<open>~a\<close>
  returns to the negation of \<open>x\<close>; their values are \<open>dunder_xor v w\<close> and \<open>dunder_invert v\<close>.
\<close>

theorem composition_truth_tables:
  assumes a: "denotes store a v" and b: "denotes store b w"
    and x: "is_satisfied_by L v c = Inr x" and y: "is_satisfied_by L w c = Inr y"
  shows "(\<not> is_AndObject (store ! a) \<or> \<not> contains store b a \<longrightarrow>
          denotes (fst (store_and store a b)) (snd (store_and store a b)) (dunder_and v w)
          \<and> is_satisfied_by L (dunder_and v w) c = Inr (x \<and> y)
          \<and> (height (dunder_and v w) < depth \<longrightarrow>
               store_is_satisfied_by depth L (fst (store_and store a b))
                 (snd (store_and store a b)) c = Inr (x \<and> y)))
       \<and> (\<not> is_OrObject (store ! a) \<or> \<not> contains store b a \<longrightarrow>
          denotes (fst (store_or store a b)) (snd (store_or store a b)) (dunder_or v w)
          \<and> is_satisfied_by L (dunder_or v w) c = Inr (x \<or> y)
          \<and> (height (dunder_or v w) < depth \<longrightarrow>
               store_is_satisfied_by depth L (fst (store_or store a b))
                 (snd (store_or store a b)) c = Inr (x \<or> y)))
       \<and> denotes (fst (store_xor store a b)) (snd (store_xor store a b)) (dunder_xor v w)
       \<and> is_satisfied_by L (dunder_xor v w) c = Inr ((x \<and> \<not> y) \<or> (\<not> x \<and> y))
       \<and> (height (dunder_xor v w) < depth \<longrightarrow>
            store_is_satisfied_by depth L (fst (store_xor store a b))
              (snd (store_xor store a b)) c = Inr ((x \<and> \<not> y) \<or> (\<not> x \<and> y)))
       \<and> denotes (fst (store_invert store a)) (snd (store_invert store a)) (dunder_invert v)
       \<and> is_satisfied_by L (dunder_invert v) c = Inr (\<not> x)
       \<and> (height (dunder_invert v) < depth \<longrightarrow>
            store_is_satisfied_by depth L (fst (store_invert store a))
              (snd (store_invert store a)) c = Inr (\<not> x))"
proof -
  have conj: "is_satisfied_by L (dunder_and v w) c = Inr (x \<and> y)"
    by (simp add: is_satisfied_by_dunder_and x y)
  have disj: "is_satisfied_by L (dunder_or v w) c = Inr (x \<or> y)"
    by (simp add: is_satisfied_by_dunder_or x y)
  have excl: "is_satisfied_by L (dunder_xor v w) c = Inr ((x \<and> \<not> y) \<or> (\<not> x \<and> y))"
    using x y by (auto simp add: dunder_xor_def)
  have neg: "is_satisfied_by L (dunder_invert v) c = Inr (\<not> x)"
    using x by (simp add: dunder_invert_def)
  have xor_value:
    "denotes (fst (store_xor store a b)) (snd (store_xor store a b)) (dunder_xor v w)"
    using store_xor_value [OF a b] by (simp add: dunder_xor_def)
  have invert_value:
    "denotes (fst (store_invert store a)) (snd (store_invert store a)) (dunder_invert v)"
    using store_invert_value [OF a] by (simp add: dunder_invert_def)
  have and_part: "\<not> is_AndObject (store ! a) \<or> \<not> contains store b a \<longrightarrow>
      denotes (fst (store_and store a b)) (snd (store_and store a b)) (dunder_and v w)
      \<and> is_satisfied_by L (dunder_and v w) c = Inr (x \<and> y)
      \<and> (height (dunder_and v w) < depth \<longrightarrow>
           store_is_satisfied_by depth L (fst (store_and store a b))
             (snd (store_and store a b)) c = Inr (x \<and> y))"
    using conj store_and_value_fresh [OF a b]
      store_is_satisfied_by_value [of "fst (store_and store a b)" "snd (store_and store a b)"
        "dunder_and v w" depth L c]
    by metis
  have or_part: "\<not> is_OrObject (store ! a) \<or> \<not> contains store b a \<longrightarrow>
      denotes (fst (store_or store a b)) (snd (store_or store a b)) (dunder_or v w)
      \<and> is_satisfied_by L (dunder_or v w) c = Inr (x \<or> y)
      \<and> (height (dunder_or v w) < depth \<longrightarrow>
           store_is_satisfied_by depth L (fst (store_or store a b))
             (snd (store_or store a b)) c = Inr (x \<or> y))"
    using disj store_or_value_fresh [OF a b]
      store_is_satisfied_by_value [of "fst (store_or store a b)" "snd (store_or store a b)"
        "dunder_or v w" depth L c]
    by metis
  have xor_part: "height (dunder_xor v w) < depth \<longrightarrow>
      store_is_satisfied_by depth L (fst (store_xor store a b))
        (snd (store_xor store a b)) c = Inr ((x \<and> \<not> y) \<or> (\<not> x \<and> y))"
    using excl store_is_satisfied_by_value [OF xor_value, of depth L c] by metis
  have invert_part: "height (dunder_invert v) < depth \<longrightarrow>
      store_is_satisfied_by depth L (fst (store_invert store a))
        (snd (store_invert store a)) c = Inr (\<not> x)"
    using neg store_is_satisfied_by_value [OF invert_value, of depth L c] by metis
  show ?thesis
    using and_part or_part xor_value excl xor_part invert_value neg invert_part
    by blast
qed

text \<open>
  In the second store, \<^verbatim>\<open>x & a\<close> for the conjunction \<^verbatim>\<open>x\<close> and its first child \<^verbatim>\<open>a\<close>, which does
  not contain \<^verbatim>\<open>x\<close>; on the analyst.
\<close>

theorem composition_truth_tables_witness:
  "denotes (fst (store_and negation 2 0)) (snd (store_and negation 2 0))
     (And [ITDepartment, Trainee, ITDepartment])
   \<and> is_satisfied_by civil_library (And [ITDepartment, Trainee, ITDepartment]) employee =
       Inr False
   \<and> store_is_satisfied_by 2 civil_library
       (fst (store_and negation 2 0)) (snd (store_and negation 2 0)) employee = Inr False
   \<and> is_satisfied_by civil_library (Or [And [ITDepartment, Trainee], ITDepartment]) employee =
       Inr True
   \<and> is_satisfied_by civil_library (Xor (And [ITDepartment, Trainee]) ITDepartment) employee =
       Inr True
   \<and> is_satisfied_by civil_library (Invert (And [ITDepartment, Trainee])) employee = Inr True"
proof -
  have nc: "\<not> contains negation 0 2"
    by (rule no_attributes) (simp add: negation_def)
  have kind: "\<not> is_OrObject (negation ! 2)"
    by (simp add: negation_def is_OrObject_def)
  have trees:
    "dunder_and (And [ITDepartment, Trainee]) (ITDepartment :: date spec) =
       And [ITDepartment, Trainee, ITDepartment]"
    "dunder_or (And [ITDepartment, Trainee]) (ITDepartment :: date spec) =
       Or [And [ITDepartment, Trainee], ITDepartment]"
    "dunder_xor (And [ITDepartment, Trainee]) (ITDepartment :: date spec) =
       Xor (And [ITDepartment, Trainee]) ITDepartment"
    "dunder_invert (And [ITDepartment, Trainee :: date spec]) =
       Invert (And [ITDepartment, Trainee])"
    by (simp_all add: dunder_and_def dunder_or_def dunder_xor_def dunder_invert_def)
  have h: "height (And [ITDepartment, Trainee, ITDepartment :: date spec]) < 2"
    by simp
  show ?thesis
    using composition_truth_tables [OF denotes_negation(2) denotes_negation(1) employee_And
        employee_ITDepartment, of 2] nc kind h
    unfolding trees
    by (simp del: is_satisfied_by.simps store_is_satisfied_by.simps height.simps)
qed

section \<open>Flattening\<close>

text \<open>
  Claim C3. For objects \<open>a\<close>, \<open>b\<close>, \<open>c\<close> that are not \<^verbatim>\<open>And\<close> objects, \<^verbatim>\<open>(a & b) & c\<close> returns one
  new \<^verbatim>\<open>And\<close> object with the three children \<open>a\<close>, \<open>b\<close>, \<open>c\<close> in this order. Its value is the
  conjunction of the three values, which evaluates as the nested tree \<^verbatim>\<open>And(And(a, b), c)\<close>
  does, exceptions included, and to the conjunction of the three results when the three
  evaluations return. Combining two \<^verbatim>\<open>And\<close> objects appends the children of the right one to
  those of the left one, in the left object, which is returned. The same holds for \<^verbatim>\<open>|\<close> and
  \<^verbatim>\<open>Or\<close>.
\<close>

theorem flattening_three_children:
  "(c < length store \<and> \<not> is_AndObject (store ! a) \<and> \<not> is_AndObject (store ! b)
      \<and> \<not> is_AndObject (store ! c) \<longrightarrow>
    store_and (fst (store_and store a b)) (snd (store_and store a b)) c =
      (store @ [AndObject [a, b, c]], length store))
   \<and> (denotes store a u \<and> denotes store b v \<and> denotes store c w \<longrightarrow>
      denotes (store @ [AndObject [a, b, c]]) (length store) (And [u, v, w]))
   \<and> is_satisfied_by L (And [u, v, w]) candidate =
       is_satisfied_by L (And [And [u, v], w]) candidate
   \<and> (is_satisfied_by L u candidate = Inr x \<and> is_satisfied_by L v candidate = Inr y
        \<and> is_satisfied_by L w candidate = Inr z \<longrightarrow>
      is_satisfied_by L (And [u, v, w]) candidate = Inr (x \<and> y \<and> z))
   \<and> (store ! a = AndObject ls \<and> store ! b = AndObject rs \<longrightarrow>
      store_and store a b = (store[a := AndObject (ls @ rs)], a))
   \<and> (c < length store \<and> \<not> is_OrObject (store ! a) \<and> \<not> is_OrObject (store ! b)
        \<and> \<not> is_OrObject (store ! c) \<longrightarrow>
      store_or (fst (store_or store a b)) (snd (store_or store a b)) c =
        (store @ [OrObject [a, b, c]], length store))
   \<and> (denotes store a u \<and> denotes store b v \<and> denotes store c w \<longrightarrow>
      denotes (store @ [OrObject [a, b, c]]) (length store) (Or [u, v, w]))
   \<and> is_satisfied_by L (Or [u, v, w]) candidate =
       is_satisfied_by L (Or [Or [u, v], w]) candidate
   \<and> (is_satisfied_by L u candidate = Inr x \<and> is_satisfied_by L v candidate = Inr y
        \<and> is_satisfied_by L w candidate = Inr z \<longrightarrow>
      is_satisfied_by L (Or [u, v, w]) candidate = Inr (x \<or> y \<or> z))
   \<and> (store ! a = OrObject ls \<and> store ! b = OrObject rs \<longrightarrow>
      store_or store a b = (store[a := OrObject (ls @ rs)], a))"
proof -
  have a3: "is_satisfied_by L u candidate = Inr x \<and> is_satisfied_by L v candidate = Inr y
        \<and> is_satisfied_by L w candidate = Inr z \<longrightarrow>
      is_satisfied_by L (And [u, v, w]) candidate = Inr (x \<and> y \<and> z)"
    by simp
  have o3: "is_satisfied_by L u candidate = Inr x \<and> is_satisfied_by L v candidate = Inr y
        \<and> is_satisfied_by L w candidate = Inr z \<longrightarrow>
      is_satisfied_by L (Or [u, v, w]) candidate = Inr (x \<or> y \<or> z)"
    by simp
  show ?thesis
    using a3 o3 store_and_three [of c store a b] store_or_three [of c store a b]
      denotes_three_And [of store a u b v c w] denotes_three_Or [of store a u b v c w]
      nested_And [of L u v w candidate] nested_Or [of L u v w candidate]
      store_and_AndObject_AndObject [of store a ls b rs]
      store_or_OrObject_OrObject [of store a ls b rs]
    by blast
qed

text \<open>
  With the three leaves of the first store, on the analyst.
\<close>

theorem flattening_three_children_witness:
  "store_and (fst (store_and leaves 0 1)) (snd (store_and leaves 0 1)) 2 =
     (leaves @ [AndObject [0, 1, 2]], 3)
   \<and> denotes (leaves @ [AndObject [0, 1, 2]]) 3 (And [ITDepartment, Trainee, DirectorBoard])
   \<and> is_satisfied_by civil_library (And [ITDepartment, Trainee, DirectorBoard]) employee =
       Inr False
   \<and> store_or (fst (store_or leaves 0 1)) (snd (store_or leaves 0 1)) 2 =
       (leaves @ [OrObject [0, 1, 2]], 3)
   \<and> denotes (leaves @ [OrObject [0, 1, 2]]) 3 (Or [ITDepartment, Trainee, DirectorBoard])
   \<and> is_satisfied_by civil_library (Or [ITDepartment, Trainee, DirectorBoard]) employee =
       Inr True"
proof -
  have kinds: "(2 :: nat) < length leaves \<and> \<not> is_AndObject (leaves ! 0)
      \<and> \<not> is_AndObject (leaves ! 1) \<and> \<not> is_AndObject (leaves ! 2)"
    "(2 :: nat) < length leaves \<and> \<not> is_OrObject (leaves ! 0)
      \<and> \<not> is_OrObject (leaves ! 1) \<and> \<not> is_OrObject (leaves ! 2)"
    by (simp_all add: leaves_def is_AndObject_def is_OrObject_def)
  have len: "length leaves = 3" by (simp add: leaves_def)
  have results: "is_satisfied_by civil_library ITDepartment employee = Inr True
      \<and> is_satisfied_by civil_library Trainee employee = Inr False
      \<and> is_satisfied_by civil_library DirectorBoard employee = Inr False"
    using employee_ITDepartment employee_Trainee employee_DirectorBoard by blast
  have "(True \<and> False \<and> False) = False" and "(True \<or> False \<or> False) = True"
    by simp_all
  then show ?thesis
    using kinds results denotes_leaves len
      flattening_three_children [where store = leaves and a = 0 and b = 1 and c = 2
        and u = ITDepartment and v = Trainee and w = DirectorBoard
        and L = civil_library and candidate = employee and x = True and y = False
        and z = False and ls = "[]" and rs = "[]"]
    by metis
qed

text \<open>
  Claim C6 says that no tree built with \<^verbatim>\<open>&\<close> and \<^verbatim>\<open>|\<close> has an \<^verbatim>\<open>And\<close> child under an \<^verbatim>\<open>And\<close>
  node, the operands being merged in either position. \<^verbatim>\<open>Specification.__and__\<close>, which a
  left operand that is not an \<^verbatim>\<open>And\<close> runs, wraps its two operands whatever the right one is:
  on the three leaves \<^verbatim>\<open>a\<close>, \<^verbatim>\<open>b\<close>, \<^verbatim>\<open>c\<close> of the first store, \<^verbatim>\<open>a & (b & c)\<close> is
  \<^verbatim>\<open>And(a, And(b, c))\<close>.
\<close>

theorem nesting_counterexample:
  "valid_store leaves \<and> store_no_nesting leaves
   \<and> store_and (fst (store_and leaves 1 2)) 0 (snd (store_and leaves 1 2)) =
       (leaves @ [AndObject [1, 2], AndObject [0, 3]], 4)
   \<and> \<not> store_no_nesting (leaves @ [AndObject [1, 2], AndObject [0, 3]])
   \<and> denotes (leaves @ [AndObject [1, 2], AndObject [0, 3]]) 4
       (And [ITDepartment, And [Trainee, DirectorBoard]])"
proof -
  have 1: "valid_store leaves \<and> store_no_nesting leaves"
    by (simp add: valid_store_def store_no_nesting_def leaves_def)
  have 2: "store_and (fst (store_and leaves 1 2)) 0 (snd (store_and leaves 1 2)) =
       (leaves @ [AndObject [1, 2], AndObject [0, 3]], 4)"
    by (simp add: store_and_def leaves_def)
  have 3: "\<not> store_no_nesting (leaves @ [AndObject [1, 2], AndObject [0, 3]])"
    by (simp add: store_no_nesting_def leaves_def is_AndObject_def)
  let ?store = "leaves @ [AndObject [1, 2], AndObject [0, 3]]"
  have l: "denotes ?store 0 ITDepartment" "denotes ?store 1 Trainee"
    "denotes ?store 2 DirectorBoard"
    by (rule denotes_Plain; simp add: leaves_def)+
  have inner: "denotes ?store 3 (And [Trainee, DirectorBoard])"
    using l by (intro denotes_And [where rs = "[1, 2]"]) (simp_all add: leaves_def)
  have 4: "denotes ?store 4 (And [ITDepartment, And [Trainee, DirectorBoard]])"
    using l inner by (intro denotes_And [where rs = "[0, 3]"]) (simp_all add: leaves_def)
  show ?thesis using 1 2 3 4 by blast
qed

text \<open>
  Claim C6, amended. The operators merge on the left operand only. When the left operand of
  \<^verbatim>\<open>&\<close> is an \<^verbatim>\<open>And\<close> object, it is updated and returned: its children are followed by the
  children of the right operand when that is an \<^verbatim>\<open>And\<close> object, and by the right operand itself
  when it is not. When the left operand is not an \<^verbatim>\<open>And\<close> object, the result is a new object
  holding the two operands. Likewise for \<^verbatim>\<open>|\<close> and \<^verbatim>\<open>Or\<close>. Hence, in a valid store without
  nesting, \<^verbatim>\<open>l & r\<close> leaves the store valid and without nesting whenever \<open>l\<close> is an \<^verbatim>\<open>And\<close>
  object or \<open>r\<close> is not one, and likewise for \<^verbatim>\<open>|\<close>.
\<close>

theorem flattening_left_operand:
  "(store ! self = AndObject ls \<and> store ! other = AndObject rs \<longrightarrow>
      store_and store self other = (store[self := AndObject (ls @ rs)], self))
   \<and> (store ! self = AndObject ls \<and> \<not> is_AndObject (store ! other) \<longrightarrow>
      store_and store self other = (store[self := AndObject (ls @ [other])], self))
   \<and> (\<not> is_AndObject (store ! self) \<longrightarrow>
      store_and store self other = (store @ [AndObject [self, other]], length store))
   \<and> (store ! self = OrObject ls \<and> store ! other = OrObject rs \<longrightarrow>
      store_or store self other = (store[self := OrObject (ls @ rs)], self))
   \<and> (store ! self = OrObject ls \<and> \<not> is_OrObject (store ! other) \<longrightarrow>
      store_or store self other = (store[self := OrObject (ls @ [other])], self))
   \<and> (\<not> is_OrObject (store ! self) \<longrightarrow>
      store_or store self other = (store @ [OrObject [self, other]], length store))
   \<and> (valid_store store \<and> store_no_nesting store \<and> self < length store
        \<and> other < length store
        \<and> (is_AndObject (store ! self) \<or> \<not> is_AndObject (store ! other)) \<longrightarrow>
      valid_store (fst (store_and store self other))
      \<and> store_no_nesting (fst (store_and store self other)))
   \<and> (valid_store store \<and> store_no_nesting store \<and> self < length store
        \<and> other < length store
        \<and> (is_OrObject (store ! self) \<or> \<not> is_OrObject (store ! other)) \<longrightarrow>
      valid_store (fst (store_or store self other))
      \<and> store_no_nesting (fst (store_or store self other)))"
  using store_and_AndObject_AndObject [of store self ls other rs]
    store_and_AndObject_other [of store self ls other]
    store_and_other [of store self other]
    store_or_OrObject_OrObject [of store self ls other rs]
    store_or_OrObject_other [of store self ls other]
    store_or_other [of store self other]
    store_and_invariant [of store self other]
    store_or_invariant [of store self other]
  unfolding is_AndObject_iff is_OrObject_iff
  by blast

text \<open>
  An \<^verbatim>\<open>And\<close> object of two leaves extended by the third leaf, and \<^verbatim>\<open>|\<close> on two leaves.
\<close>

theorem flattening_left_operand_witness:
  "store_and (leaves @ [AndObject [0, 1]]) 3 2 = (leaves @ [AndObject [0, 1, 2]], 3)
   \<and> store_no_nesting (leaves @ [AndObject [0, 1, 2]])
   \<and> store_or leaves 0 1 = (leaves @ [OrObject [0, 1]], 3)
   \<and> store_no_nesting (leaves @ [OrObject [0, 1]])"
proof -
  have 1: "valid_store (leaves @ [AndObject [0, 1]]) \<and> store_no_nesting (leaves @ [AndObject [0, 1]])"
    "valid_store leaves \<and> store_no_nesting leaves"
    by (simp_all add: valid_store_def store_no_nesting_def leaves_def is_AndObject_def
        is_OrObject_def)
  have 2: "(leaves @ [AndObject [0, 1]]) ! 3 = AndObject [0, 1]"
    "\<not> is_AndObject ((leaves @ [AndObject [0, 1]]) ! 2)"
    "is_AndObject ((leaves @ [AndObject [0, 1]]) ! 3)"
    "\<not> is_OrObject (leaves ! 0)" "\<not> is_OrObject (leaves ! 1)"
    "(3 :: nat) < length (leaves @ [AndObject [0, 1]])"
    "(2 :: nat) < length (leaves @ [AndObject [0, 1]])"
    "(0 :: nat) < length leaves" "(1 :: nat) < length leaves"
    by (simp_all add: leaves_def is_AndObject_def is_OrObject_def)
  have 3: "(leaves @ [AndObject [0, 1]])[3 := AndObject ([0, 1] @ [2])] =
      leaves @ [AndObject [0, 1, 2]]" "length leaves = 3"
    by (simp_all add: leaves_def)
  show ?thesis
    using 1 2
      flattening_left_operand [where store = "leaves @ [AndObject [0, 1]]" and self = 3
        and other = 2 and ls = "[0, 1]" and rs = "[]"]
      flattening_left_operand [where store = leaves and self = 0 and other = 1
        and ls = "[]" and rs = "[]"]
    unfolding 3
    by (metis fst_conv)
qed

section \<open>Tenure and salary\<close>

text \<open>
  Claim C4. Let the candidate's \<^verbatim>\<open>data_de_admissao\<close> be a string that pendulum parses to \<open>a\<close>,
  and let \<open>frozen\<close> be the reference time that the constructor freezes.
  \<^verbatim>\<open>AdmissionTimeInYearsBetween(initial, final)\<close> is satisfied iff
  \<open>initial * 365 < d\<close> and \<open>d < final * 365\<close>, both strict, where \<open>d\<close> is the difference in whole
  days between \<open>a\<close> and \<open>frozen\<close>. \<^verbatim>\<open>AdmissionTimeInYearsLessThan\<close> is satisfied iff the
  difference in whole years is strictly less than the threshold, and
  \<^verbatim>\<open>AdmissionTimeInYearsGreaterThan\<close> iff it is greater than or equal to the threshold.
\<close>

theorem admission_time_comparisons:
  assumes "candidate ''data_de_admissao'' = Some (PyStr raw)"
    and "pendulum_parse L raw = Some a"
    and "frozen_init L current_time now = Inr frozen"
  shows "AdmissionTimeInYearsBetween_init L initial final current_time now =
           Inr (AdmissionTimeInYearsBetween (initial * 365) (final * 365) frozen)
       \<and> is_satisfied_by L (AdmissionTimeInYearsBetween (initial * 365) (final * 365) frozen)
             candidate =
           Inr (initial * 365 < diff_in_days L a frozen \<and> diff_in_days L a frozen < final * 365)
       \<and> AdmissionTimeInYearsLessThan_init L threshold current_time now =
           Inr (AdmissionTimeInYearsLessThan threshold frozen)
       \<and> is_satisfied_by L (AdmissionTimeInYearsLessThan threshold frozen) candidate =
           Inr (diff_in_years L a frozen < threshold)
       \<and> AdmissionTimeInYearsGreaterThan_init L threshold current_time now =
           Inr (AdmissionTimeInYearsGreaterThan threshold frozen)
       \<and> is_satisfied_by L (AdmissionTimeInYearsGreaterThan threshold frozen) candidate =
           Inr (diff_in_years L a frozen \<ge> threshold)"
  using assms
  by (simp add: AdmissionTimeInYearsBetween_init_def AdmissionTimeInYearsLessThan_init_def
      AdmissionTimeInYearsGreaterThan_init_def BASE_DAYS_ON_YEAR_def admission_def getitem_def)

text \<open>
  On the trainee, admitted 365 days and one calendar year before the reference date: between
  1 and 5 years fails at the lower bound, between 0 and 1 year fails at the upper bound,
  between 0 and 2 years holds; less than 1 year fails, at least 1 year holds.
\<close>

theorem admission_time_comparisons_witness:
  "AdmissionTimeInYearsBetween_init civil_library 1 5 (Some (PyStr ''2024-01-01'')) (Date 2000 1 1) =
     Inr (AdmissionTimeInYearsBetween 365 1825 (Date 2024 1 1))
   \<and> is_satisfied_by civil_library (AdmissionTimeInYearsBetween 365 1825 (Date 2024 1 1)) newcomer =
       Inr False
   \<and> is_satisfied_by civil_library (AdmissionTimeInYearsBetween 0 365 (Date 2024 1 1)) newcomer =
       Inr False
   \<and> is_satisfied_by civil_library (AdmissionTimeInYearsBetween 0 730 (Date 2024 1 1)) newcomer =
       Inr True
   \<and> is_satisfied_by civil_library (AdmissionTimeInYearsLessThan 1 (Date 2024 1 1)) newcomer =
       Inr False
   \<and> is_satisfied_by civil_library (AdmissionTimeInYearsGreaterThan 1 (Date 2024 1 1)) newcomer =
       Inr True"
  using admission_time_comparisons [where candidate = newcomer and initial = 1 and final = 5
      and threshold = 1, OF newcomer_admission parse_2023 frozen_2024]
    admission_time_comparisons [where candidate = newcomer and initial = 0 and final = 1
      and threshold = 1, OF newcomer_admission parse_2023 frozen_2024]
    admission_time_comparisons [where candidate = newcomer and initial = 0 and final = 2
      and threshold = 1, OF newcomer_admission parse_2023 frozen_2024]
  by (simp del: is_satisfied_by.simps add: days_2023_2024 years_2023_2024)

text \<open>
  Claim C5. Let the candidate's \<^verbatim>\<open>salario_bruto\<close> be a decimal, and \<open>ratio\<close> the quotient of the
  salary by the base salary of the predicate, as \<^verbatim>\<open>Decimal\<close> division returns it.
  \<^verbatim>\<open>SalaryBetween\<close> is satisfied iff \<open>first \<le> ratio \<le> second\<close>, so at both endpoints of a range
  with \<open>first \<le> second\<close>; \<^verbatim>\<open>SalaryGreaterThan\<close> iff \<open>ratio > threshold\<close> and
  \<^verbatim>\<open>SalaryLessThan\<close> iff \<open>ratio < threshold\<close>, so neither when the ratio equals the threshold.
  The base salary is 1045.0 when the constructor gets no base, and the base it gets when that
  is a non-zero decimal.
\<close>

theorem salary_ratio_comparisons:
  assumes "candidate ''salario_bruto'' = Some (PyDecimal salary)"
    and "Decimal_truediv L salary base = Inr ratio"
  shows "is_satisfied_by L (SalaryBetween first second base) candidate =
           Inr (of_int first \<le> ratio \<and> ratio \<le> of_int second)
       \<and> is_satisfied_by L (SalaryGreaterThan threshold base) candidate =
           Inr (ratio > of_int threshold)
       \<and> is_satisfied_by L (SalaryLessThan threshold base) candidate =
           Inr (ratio < of_int threshold)
       \<and> (first \<le> second \<and> (ratio = of_int first \<or> ratio = of_int second) \<longrightarrow>
            is_satisfied_by L (SalaryBetween first second base) candidate = Inr True)
       \<and> (ratio = of_int threshold \<longrightarrow>
            is_satisfied_by L (SalaryGreaterThan threshold base) candidate = Inr False
            \<and> is_satisfied_by L (SalaryLessThan threshold base) candidate = Inr False)
       \<and> SalaryBetween_init L first second None = Inr (SalaryBetween first second 1045)
       \<and> SalaryGreaterThan_init L threshold None = Inr (SalaryGreaterThan threshold 1045)
       \<and> SalaryLessThan_init L threshold None = Inr (SalaryLessThan threshold 1045)
       \<and> (base \<noteq> 0 \<longrightarrow>
            SalaryBetween_init L first second (Some (PyDecimal base)) =
              Inr (SalaryBetween first second base)
            \<and> SalaryGreaterThan_init L threshold (Some (PyDecimal base)) =
              Inr (SalaryGreaterThan threshold base)
            \<and> SalaryLessThan_init L threshold (Some (PyDecimal base)) =
              Inr (SalaryLessThan threshold base))"
proof -
  have r: "salaries L base candidate = Inr ratio"
    using assms by (simp add: salaries_def getitem_def calculate_def)
  show ?thesis
    by (auto simp add: r SalaryBetween_init_def SalaryGreaterThan_init_def SalaryLessThan_init_def
        BASE_SALARY_def)
qed

text \<open>
  On the analyst, whose salary is five times the base salary.
\<close>

theorem salary_ratio_comparisons_witness:
  "is_satisfied_by civil_library (SalaryBetween 5 7 1045) employee = Inr True
   \<and> is_satisfied_by civil_library (SalaryBetween 3 5 1045) employee = Inr True
   \<and> is_satisfied_by civil_library (SalaryGreaterThan 5 1045) employee = Inr False
   \<and> is_satisfied_by civil_library (SalaryLessThan 5 1045) employee = Inr False
   \<and> is_satisfied_by civil_library (SalaryGreaterThan 4 1045) employee = Inr True
   \<and> SalaryGreaterThan_init civil_library 4 (Some (PyDecimal 1045)) =
       Inr (SalaryGreaterThan 4 1045)"
  using salary_ratio_comparisons [where candidate = employee and first = 5 and second = 7
      and threshold = 5, OF employee_salary ratio_5225]
    salary_ratio_comparisons [where candidate = employee and first = 3 and second = 5
      and threshold = 4, OF employee_salary ratio_5225]
  by (simp del: is_satisfied_by.simps)

section \<open>Errors\<close>

text \<open>
  Claim C9. For every leaf predicate and every candidate, \<^verbatim>\<open>is_satisfied_by\<close> fails with the
  missing-field error, Python's \<^verbatim>\<open>KeyError\<close> of the key, when the candidate lacks the key that
  the predicate reads (\<^verbatim>\<open>area\<close>, \<^verbatim>\<open>cargo\<close>, \<^verbatim>\<open>salario_bruto\<close> or \<^verbatim>\<open>data_de_admissao\<close>). It
  fails with the malformed-value error when the field is a string that cannot be parsed: the
  \<^verbatim>\<open>InvalidOperation\<close> of \<^verbatim>\<open>Decimal\<close> for a salary, the \<^verbatim>\<open>ParserError\<close> of pendulum for an
  admission date.
\<close>

theorem leaf_field_errors:
  "(candidate_key s = Some k \<and> candidate k = None \<longrightarrow>
      is_satisfied_by L s candidate = Inl (KeyError k))
   \<and> (candidate_key s = Some ''salario_bruto''
        \<and> candidate ''salario_bruto'' = Some (PyStr raw) \<and> Decimal_of_str L raw = None \<longrightarrow>
      is_satisfied_by L s candidate = Inl InvalidOperation)
   \<and> (candidate_key s = Some ''data_de_admissao''
        \<and> candidate ''data_de_admissao'' = Some (PyStr raw) \<and> pendulum_parse L raw = None \<longrightarrow>
      is_satisfied_by L s candidate = Inl ParserError)"
  by (cases s)
    (simp_all add: lower_equals_def salaries_def admission_def getitem_def)

text \<open>
  On the record without department, with an unreadable salary and admission date.
\<close>

theorem leaf_field_errors_witness:
  "is_satisfied_by civil_library ITDepartment malformed = Inl (KeyError ''area'')
   \<and> is_satisfied_by civil_library (SalaryLessThan 4 1045) malformed = Inl InvalidOperation
   \<and> is_satisfied_by civil_library (AdmissionTimeInYearsLessThan 2 (Date 2024 1 1)) malformed =
       Inl ParserError"
  using leaf_field_errors [where s = ITDepartment and k = "''area''" and candidate = malformed
      and L = civil_library]
    leaf_field_errors [where s = "SalaryLessThan 4 1045" and candidate = malformed
      and L = civil_library and raw = "''abc''"]
    leaf_field_errors [where s = "AdmissionTimeInYearsLessThan 2 (Date 2024 1 1)"
      and candidate = malformed and L = civil_library and raw = "''not a date''"]
  by (simp del: is_satisfied_by.simps
      add: malformed_salary malformed_admission malformed_area Decimal_abc parse_not_a_date)

section \<open>Nodes without children\<close>

text \<open>
  Claim C8. For every candidate, an \<^verbatim>\<open>And\<close> node with an empty child list is satisfied and an
  \<^verbatim>\<open>Or\<close> node with an empty child list is not satisfied; each evaluation returns a boolean.
\<close>

theorem empty_children_vacuous:
  "is_satisfied_by L (And []) candidate = Inr True
   \<and> is_satisfied_by L (Or []) candidate = Inr False"
  by simp

text \<open>
  Claim C7 says that evaluating an \<^verbatim>\<open>And\<close> or \<^verbatim>\<open>Or\<close> node without children raises an error.
  The module has no such check: on the empty candidate, both evaluations return.
\<close>

theorem empty_children_error_counterexample:
  "\<not> isl (is_satisfied_by civil_library (And []) (map_of []))
   \<and> \<not> isl (is_satisfied_by civil_library (Or []) (map_of []))"
  by simp

text \<open>
  Claim C7, amended. Evaluating \<^verbatim>\<open>is_satisfied_by\<close> on an \<^verbatim>\<open>And\<close> or \<^verbatim>\<open>Or\<close> node whose child
  list has zero children raises no error: for every candidate the call returns to the caller.
\<close>

theorem empty_children_no_error:
  "\<not> isl (is_satisfied_by L (And []) candidate)
   \<and> \<not> isl (is_satisfied_by L (Or []) candidate)"
  by simp

section \<open>The contract of the remainder\<close>

text \<open>
  Claim C10. For every specification and every candidate, \<^verbatim>\<open>remainder_unsatisfied_by\<close> returns
  \<^verbatim>\<open>None\<close> if and only if \<^verbatim>\<open>is_satisfied_by\<close> returns \<^verbatim>\<open>True\<close>; for every class but \<^verbatim>\<open>And\<close>, a
  remainder other than \<^verbatim>\<open>None\<close> is the node itself; and every remainder other than \<^verbatim>\<open>None\<close>,
  that of \<^verbatim>\<open>And\<close> included, is not satisfied by the same candidate.
\<close>

theorem remainder_contract:
  "(remainder_unsatisfied_by L s c = Inr None \<longleftrightarrow> is_satisfied_by L s c = Inr True)
   \<and> (\<forall>q. \<not> isinstance_And s \<and> remainder_unsatisfied_by L s c = Inr (Some q) \<longrightarrow> q = s)
   \<and> (\<forall>q. remainder_unsatisfied_by L s c = Inr (Some q) \<longrightarrow> is_satisfied_by L q c = Inr False)"
proof (cases "isinstance_And s")
  case True
  then obtain specs where s: "s = And specs" by (auto simp: isinstance_And_iff)
  show ?thesis
    using True And_remainder_None_iff [of L specs c] And_remainder_unsatisfied [of L specs c]
    unfolding s by blast
next
  case False
  show ?thesis
    using False by (auto simp add: remainder_other split: sum.splits if_splits)
qed

text \<open>
  On the analyst: the remainder of a conjunction whose only failing child is \<^verbatim>\<open>Trainee\<close> is
  that child, which is not satisfied; a satisfied leaf has no remainder; an unsatisfied leaf
  is its own remainder.
\<close>

theorem remainder_contract_witness:
  "is_satisfied_by civil_library Trainee employee = Inr False
   \<and> remainder_unsatisfied_by civil_library ITDepartment employee = Inr None
   \<and> remainder_unsatisfied_by civil_library Trainee employee = Inr (Some Trainee)"
  using remainder_contract [where s = "And [ITDepartment, Trainee, SalaryGreaterThan 4 1045]"
      and L = civil_library and c = employee]
    remainder_contract [where s = ITDepartment and L = civil_library and c = employee]
    remainder_contract [where s = Trainee and L = civil_library and c = employee]
  by (simp del: is_satisfied_by.simps remainder_unsatisfied_by.simps
      add: employee_remainder employee_remainder_Trainee employee_ITDepartment
        isinstance_And_def)

end
